theory Spec2Isabelle
  imports Complex_Main "HOL-Library.Monad_Syntax"
begin

section \<open>JavaScript numbers\<close>

text \<open>
  A JavaScript \<open>number\<close> is an IEEE double. The model keeps the three special values apart
  and carries every finite value as a real; \<open>Fin 0\<close> stands for both zeros. The elements of
  a \<open>Float32Array\<close> are numbers too (single-precision values widened on read).
  Arithmetic on finite values is exact in the model. In \<open>encodeWAV\<close> it is exact in the
  program as well: a single-precision sample has a 24-bit significand, so its product with
  \<open>0x7FFF\<close> or \<open>0x8000\<close> fits the 53 bits of a double, and doubling the sample rate only
  changes the exponent (a doubled rate beyond the largest double is \<open>Infinity\<close> and is
  stored as 0, which is also what the exact double of so large a rate is modulo \<open>2 ^ 32\<close>).
  In \<open>calculateRMS\<close> the program rounds; there each operation is followed by a rounding.
\<close>

datatype number = NaN | NegInf | PosInf | Fin real

fun lt :: "number \<Rightarrow> number \<Rightarrow> bool" where
  "lt NaN _ = False"
| "lt _ NaN = False"
| "lt _ NegInf = False"
| "lt NegInf _ = True"
| "lt PosInf _ = False"
| "lt (Fin a) PosInf = True"
| "lt (Fin a) (Fin b) = (a < b)"

definition math_min :: "number \<Rightarrow> number \<Rightarrow> number" where
  "math_min a b = (if a = NaN \<or> b = NaN then NaN else if lt b a then b else a)"

definition math_max :: "number \<Rightarrow> number \<Rightarrow> number" where
  "math_max a b = (if a = NaN \<or> b = NaN then NaN else if lt a b then b else a)"

fun mul :: "number \<Rightarrow> number \<Rightarrow> number" where
  "mul NaN _ = NaN"
| "mul _ NaN = NaN"
| "mul (Fin a) (Fin b) = Fin (a * b)"
| "mul (Fin a) PosInf = (if a = 0 then NaN else if 0 < a then PosInf else NegInf)"
| "mul (Fin a) NegInf = (if a = 0 then NaN else if 0 < a then NegInf else PosInf)"
| "mul PosInf (Fin b) = (if b = 0 then NaN else if 0 < b then PosInf else NegInf)"
| "mul NegInf (Fin b) = (if b = 0 then NaN else if 0 < b then NegInf else PosInf)"
| "mul PosInf PosInf = PosInf"
| "mul NegInf NegInf = PosInf"
| "mul PosInf NegInf = NegInf"
| "mul NegInf PosInf = NegInf"

fun add :: "number \<Rightarrow> number \<Rightarrow> number" where
  "add NaN _ = NaN"
| "add _ NaN = NaN"
| "add (Fin a) (Fin b) = Fin (a + b)"
| "add PosInf NegInf = NaN"
| "add NegInf PosInf = NaN"
| "add PosInf _ = PosInf"
| "add NegInf _ = NegInf"
| "add (Fin a) PosInf = PosInf"
| "add (Fin a) NegInf = NegInf"

text \<open>Division by an array length: the divisor is a non-negative integer.\<close>

fun div_by_length :: "number \<Rightarrow> nat \<Rightarrow> number" where
  "div_by_length NaN n = NaN"
| "div_by_length PosInf n = PosInf"
| "div_by_length NegInf n = NegInf"
| "div_by_length (Fin a) n =
     (if n = 0 then (if a = 0 then NaN else if 0 < a then PosInf else NegInf)
      else Fin (a / real n))"

fun math_sqrt :: "number \<Rightarrow> number" where
  "math_sqrt NaN = NaN"
| "math_sqrt NegInf = NaN"
| "math_sqrt PosInf = PosInf"
| "math_sqrt (Fin a) = (if a < 0 then NaN else Fin (sqrt a))"

text \<open>Truthiness of a number: \<open>NaN\<close> and zero are falsy.\<close>

fun truthy_number :: "number \<Rightarrow> bool" where
  "truthy_number NaN = False"
| "truthy_number (Fin a) = (a \<noteq> 0)"
| "truthy_number _ = True"

subsection \<open>Integer conversions\<close>

text \<open>
  \<open>ToUint8\<close>, \<open>ToUint16\<close>, \<open>ToUint32\<close> and \<open>ToInt16\<close> of ECMAScript: \<open>NaN\<close> and the
  infinities become 0, a finite value is truncated towards zero and reduced modulo \<open>2 ^ w\<close>.
\<close>

definition trunc :: "real \<Rightarrow> int" where
  "trunc x = (if x < 0 then - \<lfloor>- x\<rfloor> else \<lfloor>x\<rfloor>)"

fun toUint :: "nat \<Rightarrow> number \<Rightarrow> nat" where
  "toUint w (Fin x) = nat (trunc x mod 2 ^ w)"
| "toUint w _ = 0"

definition toInt16 :: "number \<Rightarrow> int" where
  "toInt16 v = (let m = int (toUint 16 v) in if 32768 \<le> m then m - 65536 else m)"

section \<open>DataView over an ArrayBuffer\<close>

text \<open>
  The buffer is the list of its bytes. A write outside the buffer raises \<open>RangeError\<close> in
  the program; here it returns \<open>None\<close>.
\<close>

type_synonym bytes = "nat list"

definition store :: "nat \<Rightarrow> bytes \<Rightarrow> bytes \<Rightarrow> bytes option" where
  "store byteOffset bs view =
     (if byteOffset + length bs \<le> length view
      then Some (take byteOffset view @ bs @ drop (byteOffset + length bs) view)
      else None)"

definition le_bytes :: "nat \<Rightarrow> nat \<Rightarrow> bytes" where
  "le_bytes k u = map (\<lambda>i. u div 256 ^ i mod 256) [0..<k]"

definition order_bytes :: "bool \<Rightarrow> bytes \<Rightarrow> bytes" where
  "order_bytes littleEndian bs = (if littleEndian then bs else rev bs)"

definition setUint8 :: "nat \<Rightarrow> number \<Rightarrow> bytes \<Rightarrow> bytes option" where
  "setUint8 byteOffset v view = store byteOffset [toUint 8 v] view"

definition setUint16 :: "nat \<Rightarrow> number \<Rightarrow> bool \<Rightarrow> bytes \<Rightarrow> bytes option" where
  "setUint16 byteOffset v littleEndian view =
     store byteOffset (order_bytes littleEndian (le_bytes 2 (toUint 16 v))) view"

definition setUint32 :: "nat \<Rightarrow> number \<Rightarrow> bool \<Rightarrow> bytes \<Rightarrow> bytes option" where
  "setUint32 byteOffset v littleEndian view =
     store byteOffset (order_bytes littleEndian (le_bytes 4 (toUint 32 v))) view"

definition setInt16 :: "nat \<Rightarrow> number \<Rightarrow> bool \<Rightarrow> bytes \<Rightarrow> bytes option" where
  "setInt16 byteOffset v littleEndian view =
     store byteOffset
       (order_bytes littleEndian (le_bytes 2 (nat (toInt16 v mod 65536)))) view"

text \<open>
  Reading a field back, little-endian (\<open>getUint16\<close>, \<open>getUint32\<close> and \<open>getInt16\<close> with
  \<open>littleEndian = true\<close>). The program never reads; the statements about header fields do.
\<close>

definition from_le :: "bytes \<Rightarrow> nat" where
  "from_le bs = foldr (\<lambda>b acc. b + 256 * acc) bs 0"

definition getUint16 :: "nat \<Rightarrow> bytes \<Rightarrow> nat" where
  "getUint16 byteOffset view = from_le (take 2 (drop byteOffset view))"

definition getUint32 :: "nat \<Rightarrow> bytes \<Rightarrow> nat" where
  "getUint32 byteOffset view = from_le (take 4 (drop byteOffset view))"

definition getInt16 :: "nat \<Rightarrow> bytes \<Rightarrow> int" where
  "getInt16 byteOffset view =
     (let m = int (getUint16 byteOffset view) in if 32768 \<le> m then m - 65536 else m)"

section \<open>encodeWAV\<close>

record blob =
  content :: bytes
  mime :: string

text \<open>\<open>str.charCodeAt(i)\<close> of the ASCII tags written into the header.\<close>

definition charCode :: "char \<Rightarrow> number" where
  "charCode c = Fin (real (of_char c :: nat))"

fun writeString :: "nat \<Rightarrow> string \<Rightarrow> bytes \<Rightarrow> bytes option" where
  "writeString offset [] view = Some view"
| "writeString offset (c # str) view =
     do { view' \<leftarrow> setUint8 offset (charCode c) view;
          writeString (offset + 1) str view' }"

text \<open>The body of the conversion loop: the clamped sample \<open>s\<close> and the value handed to \<open>setInt16\<close>.\<close>

definition clamp_sample :: "number \<Rightarrow> number" where
  "clamp_sample x = math_max (Fin (- 1)) (math_min (Fin 1) x)"

definition scale_sample :: "number \<Rightarrow> number" where
  "scale_sample s = (if lt s (Fin 0) then mul s (Fin 32768) else mul s (Fin 32767))"

definition pcm16 :: "number \<Rightarrow> int" where
  "pcm16 x = toInt16 (scale_sample (clamp_sample x))"

fun write_samples :: "nat \<Rightarrow> number list \<Rightarrow> bytes \<Rightarrow> bytes option" where
  "write_samples offset [] view = Some view"
| "write_samples offset (x # samples) view =
     do { let s = clamp_sample x;
          view' \<leftarrow> setInt16 offset (scale_sample s) True view;
          write_samples (offset + 2) samples view' }"

definition encodeWAV :: "number list \<Rightarrow> number \<Rightarrow> blob option" where
  "encodeWAV samples sampleRate =
     do { let buffer = replicate (44 + length samples * 2) (0::nat);
          view \<leftarrow> writeString 0 ''RIFF'' buffer;
          view \<leftarrow> setUint32 4 (Fin (real (36 + length samples * 2))) True view;
          view \<leftarrow> writeString 8 ''WAVE'' view;
          view \<leftarrow> writeString 12 ''fmt '' view;
          view \<leftarrow> setUint32 16 (Fin 16) True view;
          view \<leftarrow> setUint16 20 (Fin 1) True view;
          view \<leftarrow> setUint16 22 (Fin 1) True view;
          view \<leftarrow> setUint32 24 sampleRate True view;
          view \<leftarrow> setUint32 28 (mul sampleRate (Fin 2)) True view;
          view \<leftarrow> setUint16 32 (Fin 2) True view;
          view \<leftarrow> setUint16 34 (Fin 16) True view;
          view \<leftarrow> writeString 36 ''data'' view;
          view \<leftarrow> setUint32 40 (Fin (real (length samples * 2))) True view;
          view \<leftarrow> write_samples 44 samples view;
          Some \<lparr>content = view, mime = ''audio/wav''\<rparr> }"

section \<open>calculateRMS\<close>

text \<open>
  \<open>calculateRMS\<close> works in double arithmetic: each product, sum, quotient and root is
  the exact result rounded to a double. The rounding is the parameter \<open>rnd\<close>: \<open>rnd x\<close> is
  the double that the platform returns for the real \<open>x\<close> (an infinity when \<open>x\<close> is beyond
  the largest double). \<open>NaN\<close> and the infinities are not rounded.
\<close>

definition rounded :: "(real \<Rightarrow> number) \<Rightarrow> number \<Rightarrow> number" where
  "rounded rnd v = (case v of Fin x \<Rightarrow> rnd x | _ \<Rightarrow> v)"

fun sum_squares :: "(real \<Rightarrow> number) \<Rightarrow> number \<Rightarrow> number list \<Rightarrow> number" where
  "sum_squares rnd sm [] = sm"
| "sum_squares rnd sm (x # samples) =
     sum_squares rnd (rounded rnd (add sm (rounded rnd (mul x x)))) samples"

definition calculateRMS :: "(real \<Rightarrow> number) \<Rightarrow> number list \<Rightarrow> number" where
  "calculateRMS rnd samples =
     (if length samples = 0 then Fin 0
      else rounded rnd (math_sqrt (rounded rnd
             (div_by_length (sum_squares rnd (Fin 0) samples) (length samples)))))"

section \<open>stopRecording\<close>

text \<open>
  The refs of the hook that \<open>stopRecording\<close> reads: the tracks of the media stream, the
  audio context with its sample rate, the processor node, the handle of the pending
  animation frame, and the sample blocks appended by the capture callback. Tracks, nodes
  and contexts are named by numbers. \<open>stopRecording\<close> assigns to no ref; what it does
  to the outside is the list of its effects, in program order, ending with the settling
  of the promise: an exception inside the executor of the promise rejects it. Console
  output, and with it the level computed only for the log, is left out.
\<close>

record audio_context =
  context_id :: nat
  context_sampleRate :: number

record recorder =
  streamRef :: "nat list option"
  audioContextRef :: "audio_context option"
  processorRef :: "nat option"
  animationFrameRef :: "nat option"
  samplesRef :: "number list list"

datatype effect =
    CancelAnimationFrame nat
  | Disconnect nat
  | TrackStop nat
  | SetIsRecording bool
  | SetAudioLevel number
  | ContextClose nat
  | Resolve "blob option"
  | Reject

text \<open>\<open>target.set(source, offset)\<close> on a typed array; \<open>None\<close> is its \<open>RangeError\<close>.\<close>

definition array_set :: "number list \<Rightarrow> nat \<Rightarrow> number list \<Rightarrow> number list option" where
  "array_set source offset target =
     (if offset + length source \<le> length target
      then Some (take offset target @ source @ drop (offset + length source) target)
      else None)"

fun combine :: "nat \<Rightarrow> number list list \<Rightarrow> number list \<Rightarrow> number list option" where
  "combine offset [] combinedSamples = Some combinedSamples"
| "combine offset (block # blocks) combinedSamples =
     do { combinedSamples' \<leftarrow> array_set block offset combinedSamples;
          combine (offset + length block) blocks combinedSamples' }"

definition stopRecording :: "recorder \<Rightarrow> effect list" where
  "stopRecording h =
     (let cancelled = (case animationFrameRef h of
                         Some frame \<Rightarrow> if frame \<noteq> 0 then [CancelAnimationFrame frame] else []
                       | None \<Rightarrow> []);
          disconnected = (case processorRef h of Some node \<Rightarrow> [Disconnect node] | None \<Rightarrow> []);
          stopped = (case streamRef h of Some tracks \<Rightarrow> map TrackStop tracks | None \<Rightarrow> []);
          reset = [SetIsRecording False, SetAudioLevel (Fin 0)];
          totalLength = foldl (\<lambda>acc arr. acc + length arr) 0 (samplesRef h);
          combined = combine 0 (samplesRef h) (replicate totalLength (Fin 0));
          rate = (case audioContextRef h of
                    Some c \<Rightarrow> if truthy_number (context_sampleRate c)
                              then context_sampleRate c else Fin 44100
                  | None \<Rightarrow> Fin 44100);
          closed = (case audioContextRef h of Some c \<Rightarrow> [ContextClose (context_id c)] | None \<Rightarrow> [])
      in cancelled @ disconnected @ stopped @ reset @
         (case combined of
            None \<Rightarrow> [Reject]
          | Some combinedSamples \<Rightarrow>
              closed @
              (if length combinedSamples = 0 then [Resolve None]
               else (case encodeWAV combinedSamples rate of
                       None \<Rightarrow> [Reject]
                     | Some wavBlob \<Rightarrow> [Resolve (Some wavBlob)]))))"

definition settles :: "effect \<Rightarrow> bool" where
  "settles e = (case e of Resolve _ \<Rightarrow> True | Reject \<Rightarrow> True | _ \<Rightarrow> False)"

section \<open>The recognition endpoint\<close>

text \<open>
  Strings are carried as their UTF-8 bytes, so \<open>TextEncoder.encode\<close> only changes the
  type. The response of the recognition service is typed after the fields the handler
  reads; a field that may be missing or \<open>null\<close> is an option. What the handler is given
  from outside (environment variables, the clock, HMAC with SHA-1, base64, the network)
  is the record \<open>platform\<close>; \<open>fetch_json\<close> is \<open>fetch\<close> followed by \<open>json()\<close>, and
  \<open>Inl\<close> is what either of them throws. A reply that lacks \<open>status\<close> is outside the type:
  the handler would fail on it with a \<open>TypeError\<close> and answer through its \<open>catch\<close>
  block.
\<close>

datatype exn = TypeError | Error string | NonError

record js_file =
  file_name :: string
  file_type :: string
  file_bytes :: bytes

datatype form_entry = StringEntry string | FileEntry js_file

record request =
  req_method :: string
  req_formData :: "exn + (string \<times> form_entry) list"

record acr_status =
  status_code :: int
  status_msg :: "string option"

record acr_artist =
  artist_name :: "string option"

record acr_album =
  album_name :: "string option"
  album_cover :: "string option"

record acr_track =
  track_id :: "string option"

record acr_spotify =
  spotify_track :: "acr_track option"

record acr_external_metadata =
  external_metadata_spotify :: "acr_spotify option"

record acr_external_ids =
  external_ids_isrc :: "string option"

record acr_music =
  music_title :: "string option"
  music_artists :: "acr_artist list option"
  music_album :: "acr_album option"
  music_release_date :: "string option"
  music_external_metadata :: "acr_external_metadata option"
  music_external_ids :: "acr_external_ids option"

record acr_metadata =
  metadata_music :: "acr_music list option"

record acr_result =
  result_status :: acr_status
  result_metadata :: "acr_metadata option"

record songData =
  title :: "string option"
  artist :: string
  album :: "string option"
  albumArt :: "string option"
  releaseDate :: "string option"
  externalUrl :: "string option"

text \<open>
  The body of a response before \<open>JSON.stringify\<close>. \<open>ErrorBody m\<close> is \<open>{error: m}\<close> with a
  message of the handler's own, \<open>CaughtBody e\<close> is \<open>{error: e.message}\<close> from the
  \<open>catch\<close> block.
\<close>

datatype body = NoBody | ErrorBody string | CaughtBody exn | SongBody songData

record response =
  status :: nat
  headers :: "(string \<times> string) list"
  body :: body

record acr_request =
  url :: string
  http_method :: string
  form :: "(string \<times> form_entry) list"

record environment =
  ACRCLOUD_ACCESS_KEY :: "string option"
  ACRCLOUD_ACCESS_SECRET :: "string option"
  ACRCLOUD_HOST :: "string option"

record platform =
  env :: environment
  now :: nat
  hmac_sha1 :: "bytes \<Rightarrow> bytes \<Rightarrow> bytes"
  base64Encode :: "bytes \<Rightarrow> string"
  fetch_json :: "acr_request \<Rightarrow> exn + acr_result"

datatype event = Signed bytes bytes | Fetched acr_request

definition corsHeaders :: "(string \<times> string) list" where
  "corsHeaders =
     [(''Access-Control-Allow-Origin'', ''*''),
      (''Access-Control-Allow-Headers'', ''authorization, x-client-info, apikey, content-type'')]"

definition json_response :: "nat \<Rightarrow> body \<Rightarrow> response" where
  "json_response st b =
     \<lparr>status = st, headers = corsHeaders @ [(''Content-Type'', ''application/json'')], body = b\<rparr>"

text \<open>The \<open>catch\<close> block.\<close>

definition caught :: "exn \<Rightarrow> response" where
  "caught e =
     json_response 500
       (case e of NonError \<Rightarrow> ErrorBody ''Failed to identify song'' | _ \<Rightarrow> CaughtBody e)"

text \<open>Truthiness of a string that may be missing, and \<open>x || d\<close> on it.\<close>

definition truthy :: "string option \<Rightarrow> bool" where
  "truthy x = (case x of None \<Rightarrow> False | Some s \<Rightarrow> s \<noteq> [])"

definition or_else :: "string option \<Rightarrow> string \<Rightarrow> string" where
  "or_else x d = (case x of None \<Rightarrow> d | Some s \<Rightarrow> if s \<noteq> [] then s else d)"

text \<open>\<open>Array.prototype.join\<close>, \<open>Number.prototype.toString\<close> on a non-negative integer, \<open>TextEncoder.encode\<close>.\<close>

fun join :: "string \<Rightarrow> string list \<Rightarrow> string" where
  "join sep [] = []"
| "join sep [x] = x"
| "join sep (x # y # ys) = x @ sep @ join sep (y # ys)"

definition digit :: "nat \<Rightarrow> char" where
  "digit d = ''0123456789'' ! d"

fun toString :: "nat \<Rightarrow> string" where
  "toString n = (if n < 10 then [digit n] else toString (n div 10) @ [digit (n mod 10)])"

declare toString.simps [simp del]

definition encode :: "string \<Rightarrow> bytes" where
  "encode s = map of_char s"

text \<open>Lines 158 to 169: the song object built from the first entry of \<open>metadata.music\<close>.\<close>

definition song :: "acr_music \<Rightarrow> songData" where
  "song music =
     \<lparr>title = music_title music,
      artist = or_else (case music_artists music of
                          Some (a # _) \<Rightarrow> artist_name a
                        | _ \<Rightarrow> None) ''Unknown Artist'',
      album = Option.bind (music_album music) album_name,
      albumArt = (let cover = Option.bind (music_album music) album_cover
                  in if truthy cover then cover else None),
      releaseDate = music_release_date music,
      externalUrl =
        (let trackId = Option.bind (Option.bind (Option.bind (music_external_metadata music)
                         external_metadata_spotify) spotify_track) track_id;
             isrc = Option.bind (music_external_ids music) external_ids_isrc
         in if truthy trackId then Some (''https://open.spotify.com/track/'' @ the trackId)
            else if truthy isrc then Some (''https://www.spotify.com/search/'' @ the isrc)
            else None)\<rparr>"

text \<open>Lines 130 to 176: from the parsed reply of the service to the response.\<close>

definition respond :: "acr_result \<Rightarrow> response" where
  "respond result =
     (if status_code (result_status result) \<noteq> 0 then
        (let errorMessage = or_else (status_msg (result_status result)) ''Song not found'';
             errorMessage =
               (if status_code (result_status result) = 2004 then
                  ''No music detected in the recording. Play a song loudly near your microphone and try again.''
                else if status_code (result_status result) = 1001 then
                  ''Song not recognized. Try a different part of the song or a more popular track.''
                else errorMessage)
         in json_response 404 (ErrorBody errorMessage))
      else
        (case Option.bind (result_metadata result) metadata_music of
           Some (music # _) \<Rightarrow>
             \<lparr>status = 200, headers = corsHeaders @ [(''Content-Type'', ''application/json'')],
              body = SongBody (song music)\<rparr>
         | _ \<Rightarrow> json_response 404 (ErrorBody ''Song not found'')))"

text \<open>Lines 62 to 75: the string that is signed.\<close>

definition stringToSign :: "string \<Rightarrow> string \<Rightarrow> string" where
  "stringToSign accessKey timestamp =
     join [CHR 0x0A] [''POST'', ''/v1/identify'', accessKey, ''audio'', ''1'', timestamp]"

text \<open>Lines 77 to 96: the signature, from the two primitives of the platform.\<close>

definition signature :: "platform \<Rightarrow> string \<Rightarrow> string \<Rightarrow> string \<Rightarrow> string" where
  "signature p accessKey accessSecret timestamp =
     (let keyData = encode accessSecret;
          messageData = encode (stringToSign accessKey timestamp);
          signatureBuffer = hmac_sha1 p keyData messageData
      in base64Encode p signatureBuffer)"

text \<open>Lines 98 to 125: the multipart form and the request sent to the service.\<close>

definition acr_call :: "platform \<Rightarrow> js_file \<Rightarrow> string \<Rightarrow> string \<Rightarrow> string \<Rightarrow> acr_request" where
  "acr_call p audioFile accessKey accessSecret host =
     (let audioBytes = file_bytes audioFile;
          timestamp = toString (now p div 1000);
          dataType = ''audio'';
          signatureVersion = ''1'';
          contentType = (if file_type audioFile \<noteq> [] then file_type audioFile else ''audio/webm'');
          fileName = (if file_name audioFile \<noteq> [] then file_name audioFile else ''audio.webm'');
          acrFormData =
            [(''sample'', FileEntry \<lparr>file_name = fileName, file_type = contentType,
                                     file_bytes = audioBytes\<rparr>),
             (''access_key'', StringEntry accessKey),
             (''data_type'', StringEntry dataType),
             (''signature_version'', StringEntry signatureVersion),
             (''signature'', StringEntry (signature p accessKey accessSecret timestamp)),
             (''sample_bytes'', StringEntry (toString (length audioBytes))),
             (''timestamp'', StringEntry timestamp)]
      in \<lparr>url = ''https://'' @ host @ ''/v1/identify'', http_method = ''POST'',
          form = acrFormData\<rparr>)"

text \<open>Lines 62 to 176: sign, call the service, turn its reply into the response.\<close>

definition identify ::
  "platform \<Rightarrow> js_file \<Rightarrow> string \<Rightarrow> string \<Rightarrow> string \<Rightarrow> event list \<times> response" where
  "identify p audioFile accessKey accessSecret host =
     (let timestamp = toString (now p div 1000);
          call = acr_call p audioFile accessKey accessSecret host
      in ([Signed (encode accessSecret) (encode (stringToSign accessKey timestamp)), Fetched call],
          case fetch_json p call of
            Inl e \<Rightarrow> caught e
          | Inr result \<Rightarrow> respond result))"

text \<open>The handler passed to \<open>serve\<close>: the events it causes and the response it returns.\<close>

definition handler :: "platform \<Rightarrow> request \<Rightarrow> event list \<times> response" where
  "handler p req =
     (if req_method req = ''OPTIONS'' then
        ([], \<lparr>status = 200, headers = corsHeaders, body = NoBody\<rparr>)
      else
        (case req_formData req of
           Inl e \<Rightarrow> ([], caught e)
         | Inr formData \<Rightarrow>
             (case map_of formData ''audio'' of
                None \<Rightarrow> ([], json_response 400 (ErrorBody ''No audio file provided''))
              | Some (StringEntry s) \<Rightarrow>
                  if s = [] then ([], json_response 400 (ErrorBody ''No audio file provided''))
                  else ([], caught TypeError)
              | Some (FileEntry audioFile) \<Rightarrow>
                  if length (file_bytes audioFile) < 50000 then
                    ([], json_response 400
                           (ErrorBody ''Recording too short. Please record at least 5-10 seconds of clear audio.''))
                  else
                    (let accessKey = ACRCLOUD_ACCESS_KEY (env p);
                         accessSecret = ACRCLOUD_ACCESS_SECRET (env p);
                         host = ACRCLOUD_HOST (env p)
                     in if \<not> truthy accessKey \<or> \<not> truthy accessSecret \<or> \<not> truthy host then
                          ([], json_response 500 (ErrorBody ''ACRCloud credentials not configured''))
                        else identify p audioFile (the accessKey) (the accessSecret) (the host)))))"

text \<open>
  A request that passes both validations of the handler: it is not a preflight, its form
  holds a file under \<open>audio\<close> of at least 50000 bytes, and the three settings are
  non-empty.
\<close>

definition accepted ::
  "platform \<Rightarrow> request \<Rightarrow> js_file \<Rightarrow> string \<Rightarrow> string \<Rightarrow> string \<Rightarrow> bool" where
  "accepted p req audioFile accessKey accessSecret host =
     (req_method req \<noteq> ''OPTIONS''
      \<and> (case req_formData req of
            Inl e \<Rightarrow> False
          | Inr formData \<Rightarrow> map_of formData ''audio'' = Some (FileEntry audioFile))
      \<and> 50000 \<le> length (file_bytes audioFile)
      \<and> ACRCLOUD_ACCESS_KEY (env p) = Some accessKey \<and> accessKey \<noteq> []
      \<and> ACRCLOUD_ACCESS_SECRET (env p) = Some accessSecret \<and> accessSecret \<noteq> []
      \<and> ACRCLOUD_HOST (env p) = Some host \<and> host \<noteq> [])"

text \<open>The value of a string of decimal digits.\<close>

definition decimal_value :: "string \<Rightarrow> nat" where
  "decimal_value s = foldl (\<lambda>a c. 10 * a + (of_char c - 48)) 0 s"

section \<open>Concrete inputs\<close>

text \<open>
  A configured platform around a given service, the same platform without its access
  secret, an upload of \<open>n\<close> zero bytes and the request that carries it, and the reply of
  the service in the specification's example (a match without a Spotify track id).
\<close>

definition sample_platform :: "(acr_request \<Rightarrow> exn + acr_result) \<Rightarrow> platform" where
  "sample_platform service =
     \<lparr>env = \<lparr>ACRCLOUD_ACCESS_KEY = Some ''key'', ACRCLOUD_ACCESS_SECRET = Some ''secret'',
             ACRCLOUD_HOST = Some ''identify.example.com''\<rparr>,
      now = 1700000000123, hmac_sha1 = (\<lambda>k m. k @ m), base64Encode = map char_of,
      fetch_json = service\<rparr>"

definition unconfigured_platform :: "(acr_request \<Rightarrow> exn + acr_result) \<Rightarrow> platform" where
  "unconfigured_platform service =
     \<lparr>env = \<lparr>ACRCLOUD_ACCESS_KEY = Some ''key'', ACRCLOUD_ACCESS_SECRET = None,
             ACRCLOUD_HOST = Some ''identify.example.com''\<rparr>,
      now = 1700000000123, hmac_sha1 = (\<lambda>k m. k @ m), base64Encode = map char_of,
      fetch_json = service\<rparr>"

definition sample_file :: "nat \<Rightarrow> js_file" where
  "sample_file n =
     \<lparr>file_name = ''recording.wav'', file_type = ''audio/wav'', file_bytes = replicate n 0\<rparr>"

definition sample_request :: "nat \<Rightarrow> request" where
  "sample_request n =
     \<lparr>req_method = ''POST'', req_formData = Inr [(''audio'', FileEntry (sample_file n))]\<rparr>"

definition rejection :: "int \<Rightarrow> string option \<Rightarrow> acr_result" where
  "rejection c m =
     \<lparr>result_status = \<lparr>status_code = c, status_msg = m\<rparr>, result_metadata = None\<rparr>"

definition bohemian_rhapsody :: acr_music where
  "bohemian_rhapsody =
     \<lparr>music_title = Some ''Bohemian Rhapsody'',
      music_artists = Some [\<lparr>artist_name = Some ''Queen''\<rparr>],
      music_album = Some \<lparr>album_name = Some ''A Night at the Opera'', album_cover = None\<rparr>,
      music_release_date = Some ''1975'',
      music_external_metadata = None,
      music_external_ids = Some \<lparr>external_ids_isrc = Some ''GBUM71029604''\<rparr>\<rparr>"

definition match :: "acr_music list option \<Rightarrow> acr_result" where
  "match found =
     \<lparr>result_status = \<lparr>status_code = 0, status_msg = Some ''Success''\<rparr>,
      result_metadata = Some \<lparr>metadata_music = found\<rparr>\<rparr>"

text \<open>A rounding to the nearest multiple of \<open>2 ^ - k\<close>, for concrete runs of \<open>calculateRMS\<close>.\<close>

definition round_to :: "nat \<Rightarrow> real \<Rightarrow> number" where
  "round_to k x = Fin (real_of_int (round (x * 2 ^ k)) / 2 ^ k)"

section \<open>The byte layout of the encoder's output\<close>

text \<open>
  The two bytes one sample becomes, the 44 header bytes, and a buffer that has been written
  up to a frontier and is still zero behind it: the encoder writes front to back.
\<close>

definition sample_bytes :: "number \<Rightarrow> bytes" where
  "sample_bytes x = le_bytes 2 (nat (pcm16 x mod 65536))"

definition wav_header :: "nat \<Rightarrow> number \<Rightarrow> bytes" where
  "wav_header n sampleRate =
     map of_char ''RIFF'' @ le_bytes 4 (toUint 32 (Fin (real (36 + n * 2))))
     @ map of_char ''WAVE'' @ map of_char ''fmt '' @ le_bytes 4 (toUint 32 (Fin 16))
     @ le_bytes 2 (toUint 16 (Fin 1)) @ le_bytes 2 (toUint 16 (Fin 1))
     @ le_bytes 4 (toUint 32 sampleRate) @ le_bytes 4 (toUint 32 (mul sampleRate (Fin 2)))
     @ le_bytes 2 (toUint 16 (Fin 2)) @ le_bytes 2 (toUint 16 (Fin 16))
     @ map of_char ''data'' @ le_bytes 4 (toUint 32 (Fin (real (n * 2))))"

definition frontier :: "bytes \<Rightarrow> nat \<Rightarrow> bytes" where
  "frontier p k = p @ replicate k 0"

text \<open>The comparison \<open>a <= b\<close>, for the statements about samples beyond the range.\<close>

fun le :: "number \<Rightarrow> number \<Rightarrow> bool" where
  "le NaN _ = False"
| "le _ NaN = False"
| "le a b = (\<not> lt b a)"

section \<open>Properties of the encoder\<close>

subsection \<open>Writes at the frontier\<close>

lemma length_le_bytes: "length (le_bytes k u) = k"
  by (simp add: le_bytes_def)

lemma trunc_of_nat: "trunc (real n) = int n"
  by (simp add: trunc_def)

lemma toUint_of_nat: "toUint w (Fin (real n)) = n mod 2 ^ w"
proof -
  have "int n mod 2 ^ w = int (n mod 2 ^ w)"
    by (simp add: zmod_int)
  then show ?thesis
    by (simp add: trunc_of_nat)
qed

lemma toUint8_charCode: "toUint 8 (charCode c) = of_char c"
proof -
  have "(of_char c :: nat) mod 256 = of_char c" by simp
  then have "(of_char c :: nat) mod 2 ^ 8 = of_char c" by simp
  then show ?thesis unfolding charCode_def toUint_of_nat .
qed

lemma store_frontier:
  "length p = off \<Longrightarrow> length bs \<le> k \<Longrightarrow>
   store off bs (frontier p k) = Some (frontier (p @ bs) (k - length bs))"
  by (simp add: store_def frontier_def)

lemma setUint8_frontier:
  "length p = off \<Longrightarrow> 1 \<le> k \<Longrightarrow>
   setUint8 off v (frontier p k) = Some (frontier (p @ [toUint 8 v]) (k - 1))"
  using store_frontier [of p off "[toUint 8 v]" k] by (simp add: setUint8_def)

lemma setUint16_frontier:
  "length p = off \<Longrightarrow> 2 \<le> k \<Longrightarrow>
   setUint16 off v True (frontier p k) = Some (frontier (p @ le_bytes 2 (toUint 16 v)) (k - 2))"
  using store_frontier [of p off "le_bytes 2 (toUint 16 v)" k]
  by (simp add: setUint16_def order_bytes_def length_le_bytes)

lemma setUint32_frontier:
  "length p = off \<Longrightarrow> 4 \<le> k \<Longrightarrow>
   setUint32 off v True (frontier p k) = Some (frontier (p @ le_bytes 4 (toUint 32 v)) (k - 4))"
  using store_frontier [of p off "le_bytes 4 (toUint 32 v)" k]
  by (simp add: setUint32_def order_bytes_def length_le_bytes)

lemma setInt16_frontier:
  "length p = off \<Longrightarrow> 2 \<le> k \<Longrightarrow>
   setInt16 off (scale_sample (clamp_sample x)) True (frontier p k)
     = Some (frontier (p @ sample_bytes x) (k - 2))"
  using store_frontier [of p off "sample_bytes x" k]
  by (simp add: setInt16_def order_bytes_def length_le_bytes sample_bytes_def pcm16_def)

lemma writeString_frontier:
  "length p = off \<Longrightarrow> length str \<le> k \<Longrightarrow>
   writeString off str (frontier p k) = Some (frontier (p @ map of_char str) (k - length str))"
proof (induction str arbitrary: p off k)
  case Nil
  then show ?case by simp
next
  case (Cons c str)
  from Cons.prems have k: "1 \<le> k" "length str \<le> k - 1" by simp_all
  have "setUint8 off (charCode c) (frontier p k) = Some (frontier (p @ [of_char c]) (k - 1))"
    using Cons.prems k by (simp add: setUint8_frontier toUint8_charCode)
  moreover have "writeString (off + 1) str (frontier (p @ [of_char c]) (k - 1))
      = Some (frontier ((p @ [of_char c]) @ map of_char str) (k - 1 - length str))"
    using Cons.prems k by (intro Cons.IH) simp_all
  ultimately show ?case by simp
qed

lemma write_samples_frontier:
  "length p = off \<Longrightarrow> 2 * length samples \<le> k \<Longrightarrow>
   write_samples off samples (frontier p k)
     = Some (frontier (p @ concat (map sample_bytes samples)) (k - 2 * length samples))"
proof (induction samples arbitrary: p off k)
  case Nil
  then show ?case by simp
next
  case (Cons x samples)
  from Cons.prems have k: "2 \<le> k" "2 * length samples \<le> k - 2" by simp_all
  have "setInt16 off (scale_sample (clamp_sample x)) True (frontier p k)
      = Some (frontier (p @ sample_bytes x) (k - 2))"
    using Cons.prems k by (simp add: setInt16_frontier)
  moreover have "write_samples (off + 2) samples (frontier (p @ sample_bytes x) (k - 2))
      = Some (frontier ((p @ sample_bytes x) @ concat (map sample_bytes samples))
               (k - 2 - 2 * length samples))"
    using Cons.prems k by (intro Cons.IH) (simp_all add: sample_bytes_def length_le_bytes)
  ultimately show ?case by (simp add: Let_def)
qed

lemma encodeWAV_content:
  "encodeWAV samples sampleRate =
     Some \<lparr>content = wav_header (length samples) sampleRate @ concat (map sample_bytes samples),
           mime = ''audio/wav''\<rparr>"
proof -
  have start: "replicate (44 + length samples * 2) (0::nat) = frontier [] (44 + length samples * 2)"
    by (simp add: frontier_def)
  have stop: "\<And>p. frontier p 0 = p"
    by (simp add: frontier_def)
  show ?thesis
    unfolding encodeWAV_def Let_def start
    by (simp add: writeString_frontier setUint32_frontier setUint16_frontier
        write_samples_frontier length_le_bytes stop wav_header_def
        del: writeString.simps write_samples.simps toUint.simps)
qed

subsection \<open>The value of one sample\<close>

lemma toUint_less: "toUint w v < 2 ^ w"
proof (cases v)
  case (Fin x)
  have "trunc x mod 2 ^ w < 2 ^ w" by simp
  moreover have "0 \<le> trunc x mod 2 ^ w" by simp
  ultimately have "nat (trunc x mod 2 ^ w) < nat (2 ^ w)" by linarith
  then show ?thesis using Fin by (simp add: nat_power_eq)
qed simp_all

lemma toInt16_range: "- 32768 \<le> toInt16 v \<and> toInt16 v \<le> 32767"
  using toUint_less [of 16 v] by (simp add: toInt16_def Let_def)

lemma toInt16_trunc:
  assumes "- 32768 \<le> trunc y" and "trunc y \<le> 32767"
  shows "toInt16 (Fin y) = trunc y"
proof (cases "0 \<le> trunc y")
  case True
  then have "trunc y mod 65536 = trunc y" using assms by simp
  then show ?thesis using True assms by (simp add: toInt16_def)
next
  case False
  have "(trunc y + 65536) mod 65536 = trunc y mod 65536"
    by simp
  moreover have "(trunc y + 65536) mod 65536 = trunc y + 65536"
    using False assms by (intro mod_pos_pos_trivial) simp_all
  ultimately have "trunc y mod 65536 = trunc y + 65536"
    by simp
  then show ?thesis using False assms by (simp add: toInt16_def)
qed

lemma trunc_scaled_nonneg:
  assumes "0 \<le> s" and "s \<le> 1"
  shows "0 \<le> trunc (s * 32767) \<and> trunc (s * 32767) \<le> 32767"
proof -
  have "0 \<le> s * 32767" "s * 32767 \<le> 32767" using assms by simp_all
  then have "0 \<le> \<lfloor>s * 32767\<rfloor>" "\<lfloor>s * 32767\<rfloor> \<le> 32767" by (simp_all add: floor_le_iff le_floor_iff)
  then show ?thesis using assms by (simp add: trunc_def)
qed

lemma trunc_scaled_neg:
  assumes "- 1 \<le> s" and "s < 0"
  shows "- 32768 \<le> trunc (s * 32768) \<and> trunc (s * 32768) \<le> 0"
proof -
  have "0 \<le> - (s * 32768)" "- (s * 32768) \<le> 32768" using assms by simp_all
  then have "0 \<le> \<lfloor>- (s * 32768)\<rfloor>" "\<lfloor>- (s * 32768)\<rfloor> \<le> 32768" by (simp_all add: floor_le_iff le_floor_iff)
  then show ?thesis using assms by (simp add: trunc_def)
qed

lemma pcm16_Fin:
  "pcm16 (Fin a) =
     (let s = max (- 1) (min 1 a) in if s < 0 then trunc (s * 32768) else trunc (s * 32767))"
proof -
  define s where "s = max (- 1) (min 1 a)"
  have s: "- 1 \<le> s" "s \<le> 1" by (simp_all add: s_def)
  have clamp: "clamp_sample (Fin a) = Fin s"
    by (auto simp: clamp_sample_def math_min_def math_max_def s_def)
  show ?thesis
  proof (cases "s < 0")
    case True
    then show ?thesis
      using trunc_scaled_neg [of s] s toInt16_trunc [of "s * 32768"]
      by (simp add: pcm16_def clamp scale_sample_def s_def [symmetric])
  next
    case False
    then show ?thesis
      using trunc_scaled_nonneg [of s] s toInt16_trunc [of "s * 32767"]
      by (simp add: pcm16_def clamp scale_sample_def s_def [symmetric])
  qed
qed

lemma pcm16_special: "pcm16 NaN = 0" "pcm16 PosInf = 32767" "pcm16 NegInf = - 32768"
  by (simp_all add: pcm16_def clamp_sample_def math_min_def math_max_def scale_sample_def
      toInt16_def trunc_def)

lemma pcm16_range: "- 32768 \<le> pcm16 v \<and> pcm16 v \<le> 32767"
  unfolding pcm16_def by (rule toInt16_range)

lemma pcm16_high: "le (Fin 1) v \<Longrightarrow> pcm16 v = 32767"
  by (cases v) (simp_all add: pcm16_special pcm16_Fin trunc_def)

lemma pcm16_low: "le v (Fin (- 1)) \<Longrightarrow> pcm16 v = - 32768"
  by (cases v) (simp_all add: pcm16_special pcm16_Fin trunc_def)

subsection \<open>Reading the output back\<close>

lemma le_bytes_2: "le_bytes 2 u = [u mod 256, u div 256 mod 256]"
  by (simp add: le_bytes_def numeral_2_eq_2)

lemma le_bytes_4:
  "le_bytes 4 u = [u mod 256, u div 256 mod 256, u div 65536 mod 256, u div 16777216 mod 256]"
proof -
  have "[0..<4] = [0, 1, 2, 3]" by (simp add: upt_rec)
  then show ?thesis by (simp add: le_bytes_def)
qed

lemma from_le_2: "from_le (le_bytes 2 u) = u mod 65536"
proof -
  have "u mod (256 * 256) = 256 * (u div 256 mod 256) + u mod 256"
    by (rule mod_mult2_eq)
  then show ?thesis by (simp add: le_bytes_2 from_le_def)
qed

lemma from_le_4: "from_le (le_bytes 4 u) = u mod 4294967296"
proof -
  have a: "u mod (256 * 16777216) = 256 * (u div 256 mod 16777216) + u mod 256"
    by (rule mod_mult2_eq)
  have b: "u div 256 mod (256 * 65536) = 256 * (u div 256 div 256 mod 65536) + u div 256 mod 256"
    by (rule mod_mult2_eq)
  have c: "u div 256 div 256 mod (256 * 256)
      = 256 * (u div 256 div 256 div 256 mod 256) + u div 256 div 256 mod 256"
    by (rule mod_mult2_eq)
  have d: "u div 256 div 256 = u div 65536" "u div 65536 div 256 = u div 16777216"
    by (simp_all add: div_mult2_eq [symmetric])
  show ?thesis
    using a b c by (simp add: le_bytes_4 from_le_def d)
qed

lemma length_wav_header: "length (wav_header n r) = 44"
  by (simp add: wav_header_def length_le_bytes)

lemma length_sample_bytes: "length (sample_bytes x) = 2"
  by (simp add: sample_bytes_def length_le_bytes)

lemma length_concat_sample_bytes: "length (concat (map sample_bytes samples)) = 2 * length samples"
  by (induction samples) (simp_all add: length_sample_bytes)

lemma sample_at:
  "i < length samples \<Longrightarrow>
   take 2 (drop (2 * i) (concat (map sample_bytes samples))) = sample_bytes (samples ! i)"
proof (induction samples arbitrary: i)
  case Nil
  then show ?case by simp
next
  case (Cons x samples)
  show ?case
  proof (cases i)
    case 0
    then show ?thesis by (simp add: length_sample_bytes)
  next
    case (Suc j)
    then have "j < length samples" using Cons.prems by simp
    then have "take 2 (drop (2 * j) (concat (map sample_bytes samples))) = sample_bytes (samples ! j)"
      by (rule Cons.IH)
    then show ?thesis using Suc by (simp add: length_sample_bytes)
  qed
qed

lemma getInt16_sample_bytes: "getInt16 0 (sample_bytes x) = pcm16 x"
proof -
  have r: "- 32768 \<le> pcm16 x" "pcm16 x \<le> 32767"
    using pcm16_range [of x] by simp_all
  have u: "getUint16 0 (sample_bytes x) = nat (pcm16 x mod 65536)"
  proof -
    have "nat (pcm16 x mod 65536) < 65536" by simp
    then show ?thesis
      by (simp add: getUint16_def sample_bytes_def length_le_bytes from_le_2)
  qed
  show ?thesis
  proof (cases "0 \<le> pcm16 x")
    case True
    then have "pcm16 x mod 65536 = pcm16 x" using r by simp
    then show ?thesis using True r by (simp add: getInt16_def u)
  next
    case False
    have "(pcm16 x + 65536) mod 65536 = pcm16 x mod 65536"
      by simp
    moreover have "(pcm16 x + 65536) mod 65536 = pcm16 x + 65536"
      using False r by (intro mod_pos_pos_trivial) simp_all
    ultimately have "pcm16 x mod 65536 = pcm16 x + 65536"
      by simp
    then show ?thesis using False r by (simp add: getInt16_def u)
  qed
qed

lemma getInt16_encoded:
  assumes "i < length samples"
  shows "getInt16 (44 + 2 * i) (wav_header n r @ concat (map sample_bytes samples))
           = pcm16 (samples ! i)"
proof -
  have "take 2 (drop (44 + 2 * i) (wav_header n r @ concat (map sample_bytes samples)))
          = sample_bytes (samples ! i)"
    using sample_at [OF assms] by (simp add: length_wav_header)
  then have "getUint16 (44 + 2 * i) (wav_header n r @ concat (map sample_bytes samples))
          = getUint16 0 (sample_bytes (samples ! i))"
    by (simp add: getUint16_def length_sample_bytes)
  then show ?thesis
    using getInt16_sample_bytes [of "samples ! i"] by (simp add: getInt16_def)
qed

lemma from_le_4_toUint: "from_le (le_bytes 4 (toUint 32 v)) = toUint 32 v"
  using toUint_less [of 32 v] by (simp add: from_le_4)

lemma from_le_2_toUint: "from_le (le_bytes 2 (toUint 16 v)) = toUint 16 v"
  using toUint_less [of 16 v] by (simp add: from_le_2)

lemma header_tags:
  "take 4 (wav_header n r @ t) = map of_char ''RIFF''"
  "take 4 (drop 8 (wav_header n r @ t)) = map of_char ''WAVE''"
  "take 4 (drop 12 (wav_header n r @ t)) = map of_char ''fmt ''"
  "take 4 (drop 36 (wav_header n r @ t)) = map of_char ''data''"
  by (simp_all add: wav_header_def length_le_bytes del: toUint.simps)

lemma header_fields_32:
  "getUint32 4 (wav_header n r @ t) = toUint 32 (Fin (real (36 + n * 2)))"
  "getUint32 16 (wav_header n r @ t) = toUint 32 (Fin 16)"
  "getUint32 24 (wav_header n r @ t) = toUint 32 r"
  "getUint32 28 (wav_header n r @ t) = toUint 32 (mul r (Fin 2))"
  "getUint32 40 (wav_header n r @ t) = toUint 32 (Fin (real (n * 2)))"
  by (simp_all add: getUint32_def wav_header_def length_le_bytes from_le_4_toUint
      del: toUint.simps)

lemma header_fields_16:
  "getUint16 20 (wav_header n r @ t) = toUint 16 (Fin 1)"
  "getUint16 22 (wav_header n r @ t) = toUint 16 (Fin 1)"
  "getUint16 32 (wav_header n r @ t) = toUint 16 (Fin 2)"
  "getUint16 34 (wav_header n r @ t) = toUint 16 (Fin 16)"
  by (simp_all add: getUint16_def wav_header_def length_le_bytes from_le_2_toUint
      del: toUint.simps)

subsection \<open>The encoded file\<close>

text \<open>
  Claim C1. For every sample sequence and every sample rate, \<open>encodeWAV\<close> returns (no
  write leaves the buffer) a blob of type \<open>audio/wav\<close> of exactly \<open>44 + 2N\<close> bytes: the
  tags \<open>RIFF\<close>, \<open>WAVE\<close>, \<open>fmt \<close> and \<open>data\<close>, format chunk size 16, PCM format code 1,
  channel count 1, block align 2, 16 bits per sample, and then the \<open>N\<close> samples in order,
  each as the 16-bit value of the conversion loop. The RIFF chunk size at offset 4 is
  \<open>36 + 2N\<close> and the data chunk size at offset 40 is \<open>2N\<close> for every payload that a RIFF
  header can describe (\<open>36 + 2N < 2 ^ 32\<close>); the sample rate field is \<open>r\<close> and the byte
  rate field is \<open>r * 2\<close> for every rate \<open>r\<close> in hertz whose byte rate fits its field
  (\<open>r * 2 < 2 ^ 32\<close>), in particular for 44100, the one rate that \<open>stopRecording\<close> passes.
  Beyond that a 32-bit field holds its value modulo \<open>2 ^ 32\<close>, after \<open>ToUint32\<close>.
\<close>

theorem encodeWAV_layout:
  "\<exists>b. encodeWAV samples sampleRate = Some b
     \<and> mime b = ''audio/wav''
     \<and> length (content b) = 44 + 2 * length samples
     \<and> take 4 (content b) = map of_char ''RIFF''
     \<and> getUint32 4 (content b) = (36 + 2 * length samples) mod 2 ^ 32
     \<and> take 4 (drop 8 (content b)) = map of_char ''WAVE''
     \<and> take 4 (drop 12 (content b)) = map of_char ''fmt ''
     \<and> getUint32 16 (content b) = 16
     \<and> getUint16 20 (content b) = 1
     \<and> getUint16 22 (content b) = 1
     \<and> getUint32 24 (content b) = toUint 32 sampleRate
     \<and> getUint32 28 (content b) = toUint 32 (mul sampleRate (Fin 2))
     \<and> getUint16 32 (content b) = 2
     \<and> getUint16 34 (content b) = 16
     \<and> take 4 (drop 36 (content b)) = map of_char ''data''
     \<and> getUint32 40 (content b) = (2 * length samples) mod 2 ^ 32
     \<and> (\<forall>i<length samples. getInt16 (44 + 2 * i) (content b) = pcm16 (samples ! i))
     \<and> (36 + 2 * length samples < 2 ^ 32 \<longrightarrow>
           getUint32 4 (content b) = 36 + 2 * length samples
         \<and> getUint32 40 (content b) = 2 * length samples)
     \<and> (\<forall>r. sampleRate = Fin (real r) \<and> r * 2 < 2 ^ 32 \<longrightarrow>
           getUint32 24 (content b) = r \<and> getUint32 28 (content b) = r * 2)
     \<and> (sampleRate = Fin 44100 \<longrightarrow>
           getUint32 24 (content b) = 44100 \<and> getUint32 28 (content b) = 88200)"
proof -
  let ?c = "wav_header (length samples) sampleRate @ concat (map sample_bytes samples)"
  let ?b = "\<lparr>content = ?c, mime = ''audio/wav''\<rparr>"
  have c: "content ?b = ?c" by simp
  have enc: "encodeWAV samples sampleRate = Some ?b"
    by (rule encodeWAV_content)
  have kind: "mime ?b = ''audio/wav''" by simp
  have size: "length (content ?b) = 44 + 2 * length samples"
    unfolding c by (simp add: length_wav_header length_concat_sample_bytes)
  have tags: "take 4 (content ?b) = map of_char ''RIFF''"
    "take 4 (drop 8 (content ?b)) = map of_char ''WAVE''"
    "take 4 (drop 12 (content ?b)) = map of_char ''fmt ''"
    "take 4 (drop 36 (content ?b)) = map of_char ''data''"
    unfolding c by (rule header_tags)+
  have f4: "getUint32 4 (content ?b) = (36 + 2 * length samples) mod 2 ^ 32"
    unfolding c using toUint_of_nat [of 32 "36 + length samples * 2"]
    by (simp add: header_fields_32 mult.commute del: toUint.simps)
  have f40: "getUint32 40 (content ?b) = (2 * length samples) mod 2 ^ 32"
    unfolding c using toUint_of_nat [of 32 "length samples * 2"]
    by (simp add: header_fields_32 mult.commute del: toUint.simps)
  have f16: "getUint32 16 (content ?b) = 16"
    unfolding c using toUint_of_nat [of 32 16] by (simp add: header_fields_32 del: toUint.simps)
  have h16: "getUint16 20 (content ?b) = 1" "getUint16 22 (content ?b) = 1"
    "getUint16 32 (content ?b) = 2" "getUint16 34 (content ?b) = 16"
    unfolding c
    using toUint_of_nat [of 16 1] toUint_of_nat [of 16 2] toUint_of_nat [of 16 16]
    by (simp_all add: header_fields_16 del: toUint.simps)
  have f24: "getUint32 24 (content ?b) = toUint 32 sampleRate"
    "getUint32 28 (content ?b) = toUint 32 (mul sampleRate (Fin 2))"
    unfolding c by (rule header_fields_32)+
  have samples: "\<forall>i<length samples. getInt16 (44 + 2 * i) (content ?b) = pcm16 (samples ! i)"
    unfolding c by (simp add: getInt16_encoded)
  have fits: "36 + 2 * length samples < 2 ^ 32 \<longrightarrow>
      getUint32 4 (content ?b) = 36 + 2 * length samples
      \<and> getUint32 40 (content ?b) = 2 * length samples"
    unfolding f4 f40 by simp
  have rate: "\<forall>r. sampleRate = Fin (real r) \<and> r * 2 < 2 ^ 32 \<longrightarrow>
      getUint32 24 (content ?b) = r \<and> getUint32 28 (content ?b) = r * 2"
  proof (intro allI impI, elim conjE)
    fix r assume r: "sampleRate = Fin (real r)" "r * 2 < 2 ^ 32"
    have "mul sampleRate (Fin 2) = Fin (real (r * 2))" using r by simp
    then have "toUint 32 (mul sampleRate (Fin 2)) = r * 2"
      using r toUint_of_nat [of 32 "r * 2"] by (simp del: toUint.simps)
    moreover have "toUint 32 sampleRate = r"
      using r toUint_of_nat [of 32 r] by (simp del: toUint.simps)
    ultimately show "getUint32 24 (content ?b) = r \<and> getUint32 28 (content ?b) = r * 2"
      unfolding f24 by simp
  qed
  have usual: "sampleRate = Fin 44100 \<longrightarrow>
      getUint32 24 (content ?b) = 44100 \<and> getUint32 28 (content ?b) = 88200"
    using rate [rule_format, of 44100] by simp
  show ?thesis
    by (intro exI [of _ ?b] conjI)
       (fact enc kind size tags f4 f40 f16 h16 f24 samples fits rate usual)+
qed

theorem encodeWAV_layout_witness:
  "map_option (length \<circ> content) (encodeWAV [Fin (1 / 2), Fin (- 1)] (Fin 44100)) = Some 48
   \<and> map_option (getUint32 4 \<circ> content) (encodeWAV [Fin (1 / 2), Fin (- 1)] (Fin 44100)) = Some 40
   \<and> map_option (getUint32 24 \<circ> content) (encodeWAV [Fin (1 / 2), Fin (- 1)] (Fin 44100)) = Some 44100
   \<and> map_option (getUint32 28 \<circ> content) (encodeWAV [Fin (1 / 2), Fin (- 1)] (Fin 44100)) = Some 88200
   \<and> map_option (getUint32 40 \<circ> content) (encodeWAV [Fin (1 / 2), Fin (- 1)] (Fin 44100)) = Some 4
   \<and> map_option (getInt16 44 \<circ> content) (encodeWAV [Fin (1 / 2), Fin (- 1)] (Fin 44100)) = Some 16383
   \<and> map_option (getInt16 46 \<circ> content) (encodeWAV [Fin (1 / 2), Fin (- 1)] (Fin 44100)) = Some (- 32768)"
proof -
  obtain b where b: "encodeWAV [Fin (1 / 2), Fin (- 1)] (Fin 44100) = Some b"
    and size: "length (content b) = 44 + 2 * length [Fin (1 / 2), Fin (- 1)]"
    and data: "\<forall>i<length [Fin (1 / 2), Fin (- 1)].
        getInt16 (44 + 2 * i) (content b) = pcm16 ([Fin (1 / 2), Fin (- 1)] ! i)"
    and fits: "36 + 2 * length [Fin (1 / 2), Fin (- 1)] < 2 ^ 32 \<longrightarrow>
        getUint32 4 (content b) = 36 + 2 * length [Fin (1 / 2), Fin (- 1)]
        \<and> getUint32 40 (content b) = 2 * length [Fin (1 / 2), Fin (- 1)]"
    and rate: "\<forall>r. Fin 44100 = Fin (real r) \<and> r * 2 < 2 ^ 32 \<longrightarrow>
        getUint32 24 (content b) = r \<and> getUint32 28 (content b) = r * 2"
    using encodeWAV_layout [of "[Fin (1 / 2), Fin (- 1)]" "Fin 44100"] by blast
  have "getInt16 (44 + 2 * 0) (content b) = pcm16 (Fin (1 / 2))"
    "getInt16 (44 + 2 * 1) (content b) = pcm16 (Fin (- 1))"
    using data [rule_format, of 0] data [rule_format, of 1] by simp_all
  moreover have "pcm16 (Fin (1 / 2)) = 16383" "pcm16 (Fin (- 1)) = - 32768"
    by (simp_all add: pcm16_Fin trunc_def)
  moreover have "getUint32 24 (content b) = 44100 \<and> getUint32 28 (content b) = 44100 * 2"
    using rate [rule_format, of 44100] by simp
  ultimately show ?thesis
    using b size fits by simp
qed

text \<open>
  Claim C3. For every sample \<open>v\<close> of the input, the 16-bit integer that the encoder writes
  for it lies in \<open>[-32768, 32767]\<close>; it is the conversion to a 16-bit integer of the sample
  clamped to \<open>[-1, 1]\<close> and then scaled by 32768 when the clamped value is negative and by
  32767 otherwise; for a finite sample that is the scaled value truncated towards zero,
  with no wrap-around; every \<open>v \<ge> 1\<close> (\<open>+Infinity\<close> too) gives 32767 and every \<open>v \<le> -1\<close>
  (\<open>-Infinity\<close> too) gives -32768. A \<open>NaN\<close> sample is written as 0.
\<close>

theorem encodeWAV_clamping_law:
  assumes "i < length samples"
  shows "\<exists>b. encodeWAV samples sampleRate = Some b \<and>
     (let y = getInt16 (44 + 2 * i) (content b); v = samples ! i in
        - 32768 \<le> y \<and> y \<le> 32767
      \<and> y = toInt16 (scale_sample (clamp_sample v))
      \<and> (\<forall>a. v = Fin a \<longrightarrow>
            y = (let s = max (- 1) (min 1 a)
                 in if s < 0 then trunc (s * 32768) else trunc (s * 32767)))
      \<and> (le (Fin 1) v \<longrightarrow> y = 32767)
      \<and> (le v (Fin (- 1)) \<longrightarrow> y = - 32768)
      \<and> (v = NaN \<longrightarrow> y = 0))"
proof -
  let ?b = "\<lparr>content = wav_header (length samples) sampleRate @ concat (map sample_bytes samples),
             mime = ''audio/wav''\<rparr>"
  have y: "getInt16 (44 + 2 * i) (content ?b) = pcm16 (samples ! i)"
    using getInt16_encoded [OF assms] by simp
  have "- 32768 \<le> pcm16 (samples ! i)" "pcm16 (samples ! i) \<le> 32767"
    using pcm16_range [of "samples ! i"] by simp_all
  moreover have "pcm16 (samples ! i) = toInt16 (scale_sample (clamp_sample (samples ! i)))"
    by (simp add: pcm16_def)
  moreover have "\<forall>a. samples ! i = Fin a \<longrightarrow>
      pcm16 (samples ! i) = (let s = max (- 1) (min 1 a)
        in if s < 0 then trunc (s * 32768) else trunc (s * 32767))"
    by (simp add: pcm16_Fin)
  moreover have "le (Fin 1) (samples ! i) \<longrightarrow> pcm16 (samples ! i) = 32767"
    by (simp add: pcm16_high)
  moreover have "le (samples ! i) (Fin (- 1)) \<longrightarrow> pcm16 (samples ! i) = - 32768"
    by (simp add: pcm16_low)
  moreover have "samples ! i = NaN \<longrightarrow> pcm16 (samples ! i) = 0"
    by (simp add: pcm16_special)
  ultimately show ?thesis
    unfolding encodeWAV_content Let_def y [symmetric]
    by (intro exI [of _ ?b] conjI) (simp_all only: y)
qed

theorem encodeWAV_clamping_law_witness:
  "map_option (getInt16 44 \<circ> content) (encodeWAV [Fin 2, Fin (- 3), Fin (1 / 4), NaN] (Fin 44100)) = Some 32767
   \<and> map_option (getInt16 46 \<circ> content) (encodeWAV [Fin 2, Fin (- 3), Fin (1 / 4), NaN] (Fin 44100)) = Some (- 32768)
   \<and> map_option (getInt16 48 \<circ> content) (encodeWAV [Fin 2, Fin (- 3), Fin (1 / 4), NaN] (Fin 44100)) = Some 8191
   \<and> map_option (getInt16 50 \<circ> content) (encodeWAV [Fin 2, Fin (- 3), Fin (1 / 4), NaN] (Fin 44100)) = Some 0"
  using encodeWAV_clamping_law [of 0 "[Fin 2, Fin (- 3), Fin (1 / 4), NaN]" "Fin 44100"]
    encodeWAV_clamping_law [of 1 "[Fin 2, Fin (- 3), Fin (1 / 4), NaN]" "Fin 44100"]
    encodeWAV_clamping_law [of 2 "[Fin 2, Fin (- 3), Fin (1 / 4), NaN]" "Fin 44100"]
    encodeWAV_clamping_law [of 3 "[Fin 2, Fin (- 3), Fin (1 / 4), NaN]" "Fin 44100"]
  by (auto simp: Let_def trunc_def scale_sample_def clamp_sample_def math_min_def math_max_def
      toInt16_def)

section \<open>Properties of calculateRMS\<close>

lemma le_zero_cases: "le (Fin 0) v \<longleftrightarrow> v = PosInf \<or> (\<exists>a. v = Fin a \<and> 0 \<le> a)"
  by (cases v) auto

lemma le_not_NaN: "le a v \<Longrightarrow> v \<noteq> NaN"
  by (cases a; cases v) simp_all

lemma rounded_NaN: "rounded rnd NaN = NaN"
  by (simp add: rounded_def)

lemma rounded_nonneg:
  assumes "\<forall>x. 0 \<le> x \<longrightarrow> le (Fin 0) (rnd x)" and "le (Fin 0) v"
  shows "le (Fin 0) (rounded rnd v)"
proof (cases v)
  case (Fin a)
  then have "0 \<le> a" using assms(2) by simp
  then have "le (Fin 0) (rnd a)" using assms(1) by simp
  then show ?thesis using Fin by (simp add: rounded_def)
qed (use assms(2) in \<open>simp_all add: rounded_def\<close>)

lemma square_nonneg: "x \<noteq> NaN \<Longrightarrow> le (Fin 0) (mul x x)"
  by (cases x) simp_all

lemma add_nonneg: "le (Fin 0) a \<Longrightarrow> le (Fin 0) b \<Longrightarrow> le (Fin 0) (add a b)"
  by (auto simp: le_zero_cases)

lemma div_by_length_nonneg: "0 < n \<Longrightarrow> le (Fin 0) v \<Longrightarrow> le (Fin 0) (div_by_length v n)"
  by (auto simp: le_zero_cases)

lemma math_sqrt_nonneg: "le (Fin 0) v \<Longrightarrow> le (Fin 0) (math_sqrt v)"
  by (auto simp: le_zero_cases)

lemma sum_squares_foldl:
  "sum_squares rnd sm samples
     = foldl (\<lambda>sm x. rounded rnd (add sm (rounded rnd (mul x x)))) sm samples"
  by (induction samples arbitrary: sm) simp_all

lemma sum_squares_nonneg:
  assumes "\<forall>x. 0 \<le> x \<longrightarrow> le (Fin 0) (rnd x)"
  shows "NaN \<notin> set samples \<Longrightarrow> le (Fin 0) sm \<Longrightarrow> le (Fin 0) (sum_squares rnd sm samples)"
proof (induction samples arbitrary: sm)
  case Nil
  then show ?case by simp
next
  case (Cons x samples)
  have "x \<noteq> NaN" using Cons.prems by auto
  then have "le (Fin 0) (mul x x)" by (rule square_nonneg)
  then have "le (Fin 0) (rounded rnd (mul x x))" by (rule rounded_nonneg [OF assms])
  then have "le (Fin 0) (add sm (rounded rnd (mul x x)))"
    using Cons.prems(2) by (intro add_nonneg)
  then have "le (Fin 0) (rounded rnd (add sm (rounded rnd (mul x x))))"
    by (rule rounded_nonneg [OF assms])
  then show ?case using Cons.prems by (simp add: Cons.IH)
qed

lemma sum_squares_from_NaN: "sum_squares rnd NaN samples = NaN"
  by (induction samples) (simp_all add: rounded_NaN)

lemma add_NaN_right: "add sm NaN = NaN"
  by (cases sm) simp_all

lemma sum_squares_NaN: "NaN \<in> set samples \<Longrightarrow> sum_squares rnd sm samples = NaN"
proof (induction samples arbitrary: sm)
  case Nil
  then show ?case by simp
next
  case (Cons x samples)
  show ?case
  proof (cases "x = NaN")
    case True
    then show ?thesis by (simp add: rounded_NaN add_NaN_right sum_squares_from_NaN)
  next
    case False
    then have "NaN \<in> set samples" using Cons.prems by auto
    then show ?thesis by (simp add: Cons.IH)
  qed
qed

text \<open>Where nothing is rounded, the result is the root mean square of the reals.\<close>

lemma sum_squares_exact:
  "sum_squares Fin (Fin a) (map Fin xs) = Fin (a + sum_list (map (\<lambda>x. x * x) xs))"
  by (induction xs arbitrary: a) (simp_all add: rounded_def add.assoc)

lemma calculateRMS_exact:
  assumes "xs \<noteq> []"
  shows "calculateRMS Fin (map Fin xs)
     = Fin (sqrt (sum_list (map (\<lambda>x. x * x) xs) / real (length xs)))"
proof -
  have "0 \<le> sum_list (map (\<lambda>x. x * x) xs)"
    by (intro sum_list_nonneg) auto
  then have "\<not> sum_list (map (\<lambda>x. x * x) xs) / real (length xs) < 0"
    by (simp add: not_less)
  then show ?thesis
    using assms sum_squares_exact [of 0 xs] by (simp add: calculateRMS_def rounded_def)
qed

lemma round_to_nonneg: "\<forall>x. 0 \<le> x \<longrightarrow> le (Fin 0) (round_to k x)"
proof (intro allI impI)
  fix x :: real
  assume "0 \<le> x"
  then have "0 \<le> x * 2 ^ k" by simp
  then have "0 \<le> round (x * 2 ^ k)" by (simp add: round_def)
  then have "0 \<le> real_of_int (round (x * 2 ^ k)) / 2 ^ k" by simp
  then show "le (Fin 0) (round_to k x)" by (simp add: round_to_def not_less)
qed

lemma round_to_int: "round_to k (real_of_int z) = Fin (real_of_int z)"
proof -
  have "real_of_int z * 2 ^ k = real_of_int (z * 2 ^ k)" by simp
  then have "round (real_of_int z * 2 ^ k) = z * 2 ^ k"
    by (simp only: round_of_int)
  then show ?thesis by (simp add: round_to_def)
qed

text \<open>
  Claim C10 as stated fails on a block that holds a \<open>NaN\<close>: the sum, the mean and the
  root are \<open>NaN\<close>, which is not a non-negative level.
\<close>

theorem calculateRMS_NaN:
  "calculateRMS (round_to 52) [NaN] = NaN \<and> \<not> le (Fin 0) (calculateRMS (round_to 52) [NaN])"
  by (simp add: calculateRMS_def rounded_def)

text \<open>
  Claim C10, as amended. Whatever the rounding, provided it takes no non-negative real
  to a negative double or to \<open>NaN\<close> (as rounding to the nearest double does):
  \<open>calculateRMS\<close> returns 0 for the empty block, by its guard and without dividing; for
  every non-empty block it returns the square root of the mean of the squared samples
  as double arithmetic computes it, that is with the squares, the running sum, the
  quotient and the root each rounded; for every block without a \<open>NaN\<close> sample (finite or
  infinite samples) that result is not \<open>NaN\<close> and is at least 0; for every block that
  holds a \<open>NaN\<close> sample it is \<open>NaN\<close>.
\<close>

theorem calculateRMS_total:
  assumes "\<forall>x. 0 \<le> x \<longrightarrow> le (Fin 0) (rnd x)"
  shows "calculateRMS rnd [] = Fin 0
   \<and> (samples \<noteq> [] \<longrightarrow>
        calculateRMS rnd samples
          = rounded rnd (math_sqrt (rounded rnd (div_by_length
              (foldl (\<lambda>sm x. rounded rnd (add sm (rounded rnd (mul x x)))) (Fin 0) samples)
              (length samples)))))
   \<and> (NaN \<notin> set samples \<longrightarrow>
        calculateRMS rnd samples \<noteq> NaN \<and> le (Fin 0) (calculateRMS rnd samples))
   \<and> (NaN \<in> set samples \<longrightarrow> calculateRMS rnd samples = NaN)"
proof (intro conjI impI)
  show "calculateRMS rnd [] = Fin 0" by (simp add: calculateRMS_def)
next
  assume "samples \<noteq> []"
  then show "calculateRMS rnd samples
      = rounded rnd (math_sqrt (rounded rnd (div_by_length
          (foldl (\<lambda>sm x. rounded rnd (add sm (rounded rnd (mul x x)))) (Fin 0) samples)
          (length samples))))"
    by (simp add: calculateRMS_def sum_squares_foldl)
next
  assume clean: "NaN \<notin> set samples"
  show nonneg: "le (Fin 0) (calculateRMS rnd samples)"
  proof (cases "samples = []")
    case True
    then show ?thesis by (simp add: calculateRMS_def)
  next
    case False
    then have n: "0 < length samples" by simp
    have "le (Fin 0) (sum_squares rnd (Fin 0) samples)"
      using clean by (intro sum_squares_nonneg [OF assms]) simp_all
    then have "le (Fin 0) (div_by_length (sum_squares rnd (Fin 0) samples) (length samples))"
      using n by (intro div_by_length_nonneg)
    then have "le (Fin 0) (rounded rnd
        (div_by_length (sum_squares rnd (Fin 0) samples) (length samples)))"
      by (rule rounded_nonneg [OF assms])
    then have "le (Fin 0) (math_sqrt (rounded rnd
        (div_by_length (sum_squares rnd (Fin 0) samples) (length samples))))"
      by (rule math_sqrt_nonneg)
    then have "le (Fin 0) (rounded rnd (math_sqrt (rounded rnd
        (div_by_length (sum_squares rnd (Fin 0) samples) (length samples)))))"
      by (rule rounded_nonneg [OF assms])
    then show ?thesis using False by (simp add: calculateRMS_def)
  qed
  then show "calculateRMS rnd samples \<noteq> NaN" by (rule le_not_NaN)
next
  assume "NaN \<in> set samples"
  then have "sum_squares rnd (Fin 0) samples = NaN" "samples \<noteq> []"
    by (auto simp: sum_squares_NaN)
  then show "calculateRMS rnd samples = NaN"
    by (simp add: calculateRMS_def rounded_NaN)
qed

theorem calculateRMS_total_witness:
  "calculateRMS (round_to 52) [] = Fin 0
   \<and> calculateRMS (round_to 52) [Fin 1, Fin (- 7)] = Fin 5
   \<and> le (Fin 0) (calculateRMS (round_to 52) [Fin 1, Fin (- 7)])
   \<and> calculateRMS (round_to 52) [Fin 1, NegInf] = PosInf
   \<and> calculateRMS (round_to 52) [Fin 1, NaN, Fin 2] = NaN"
proof -
  have "sqrt 25 = sqrt (5\<^sup>2)" by simp
  then have five: "sqrt 25 = 5" by (simp only: real_sqrt_abs)
  have ints: "round_to 52 1 = Fin 1" "round_to 52 49 = Fin 49" "round_to 52 50 = Fin 50"
    "round_to 52 25 = Fin 25" "round_to 52 5 = Fin 5"
    using round_to_int [of 52 1] round_to_int [of 52 49] round_to_int [of 52 50]
      round_to_int [of 52 25] round_to_int [of 52 5]
    by simp_all
  have rms: "calculateRMS (round_to 52) [Fin 1, Fin (- 7)] = Fin 5"
    by (simp add: calculateRMS_def rounded_def ints five)
  have inf: "calculateRMS (round_to 52) [Fin 1, NegInf] = PosInf"
    by (simp add: calculateRMS_def rounded_def ints)
  show ?thesis
    using calculateRMS_total [of "round_to 52" "[Fin 1, Fin (- 7)]", OF round_to_nonneg]
      calculateRMS_total [of "round_to 52" "[Fin 1, NaN, Fin 2]", OF round_to_nonneg]
      rms inf
    by (simp add: ints five rounded_def)
qed

section \<open>Properties of stopRecording\<close>

lemma totalLength_concat:
  "foldl (\<lambda>acc arr. acc + length arr) a blocks = a + length (concat blocks)"
  by (induction blocks arbitrary: a) simp_all

lemma combine_frontier:
  "length p = off \<Longrightarrow> length (concat blocks) \<le> k \<Longrightarrow>
   combine off blocks (p @ replicate k z)
     = Some (p @ concat blocks @ replicate (k - length (concat blocks)) z)"
proof (induction blocks arbitrary: p off k)
  case Nil
  then show ?case by simp
next
  case (Cons block blocks)
  from Cons.prems have k: "length block \<le> k" "length (concat blocks) \<le> k - length block"
    by simp_all
  have "array_set block off (p @ replicate k z)
      = Some ((p @ block) @ replicate (k - length block) z)"
    using Cons.prems k by (simp add: array_set_def)
  moreover have "combine (off + length block) blocks ((p @ block) @ replicate (k - length block) z)
      = Some ((p @ block) @ concat blocks
               @ replicate (k - length block - length (concat blocks)) z)"
    using Cons.prems k by (intro Cons.IH) simp_all
  ultimately show ?case by simp
qed

lemma combine_concat:
  "combine 0 blocks (replicate (foldl (\<lambda>acc arr. acc + length arr) 0 blocks) z)
     = Some (concat blocks)"
  using combine_frontier [of "[]" 0 blocks "length (concat blocks)" z]
  by (simp add: totalLength_concat)

lemma count_list_TrackStop: "count_list (map TrackStop tracks) (TrackStop t) = count_list tracks t"
  by (induction tracks) simp_all

lemma count_list_distinct: "distinct xs \<Longrightarrow> x \<in> set xs \<Longrightarrow> count_list xs x = 1"
  by (induction xs) auto

lemma count_list_not_TrackStop:
  "(\<And>t. e \<noteq> TrackStop t) \<Longrightarrow> count_list (map TrackStop tracks) e = 0"
  by (induction tracks) (simp, fastforce)

text \<open>
  Claim C8. One call of \<open>stopRecording\<close> performs its releases and then settles the promise,
  once and last. With no accumulated sample block it resolves to \<open>null\<close>; with samples it
  resolves to the encoded blob; it never rejects. On both paths, before the promise
  settles: the pending animation frame held by the ref (a non-zero handle) is cancelled
  once, the processor node is disconnected once, every track of the stream is stopped
  once, and the audio context is closed once.
\<close>

theorem stopRecording_releases:
  "\<exists>pre fin. stopRecording h = pre @ [fin]
     \<and> (\<forall>e\<in>set pre. \<not> settles e)
     \<and> (samplesRef h = [] \<longrightarrow> fin = Resolve None)
     \<and> (concat (samplesRef h) \<noteq> [] \<longrightarrow>
          (\<exists>wavBlob. fin = Resolve (Some wavBlob)
             \<and> length (content wavBlob) = 44 + 2 * length (concat (samplesRef h))))
     \<and> (\<forall>frame. animationFrameRef h = Some frame \<and> frame \<noteq> 0 \<longrightarrow>
          count_list pre (CancelAnimationFrame frame) = 1)
     \<and> (\<forall>node. processorRef h = Some node \<longrightarrow> count_list pre (Disconnect node) = 1)
     \<and> (\<forall>tracks. streamRef h = Some tracks \<and> distinct tracks \<longrightarrow>
          (\<forall>t\<in>set tracks. count_list pre (TrackStop t) = 1))
     \<and> (\<forall>c. audioContextRef h = Some c \<longrightarrow> count_list pre (ContextClose (context_id c)) = 1)"
proof -
  define cancelled where "cancelled =
    (case animationFrameRef h of
       Some frame \<Rightarrow> if frame \<noteq> 0 then [CancelAnimationFrame frame] else []
     | None \<Rightarrow> [])"
  define disconnected where "disconnected =
    (case processorRef h of Some node \<Rightarrow> [Disconnect node] | None \<Rightarrow> [])"
  define stopped where "stopped =
    (case streamRef h of Some tracks \<Rightarrow> map TrackStop tracks | None \<Rightarrow> [])"
  define closed where "closed =
    (case audioContextRef h of Some c \<Rightarrow> [ContextClose (context_id c)] | None \<Rightarrow> [])"
  define rate where "rate =
    (case audioContextRef h of
       Some c \<Rightarrow> if truthy_number (context_sampleRate c) then context_sampleRate c else Fin 44100
     | None \<Rightarrow> Fin 44100)"
  define pre where "pre = cancelled @ disconnected @ stopped
    @ [SetIsRecording False, SetAudioLevel (Fin 0)] @ closed"
  define wav where "wav = \<lparr>content = wav_header (length (concat (samplesRef h))) rate
      @ concat (map sample_bytes (concat (samplesRef h))), mime = ''audio/wav''\<rparr>"
  define fin where "fin = (if concat (samplesRef h) = [] then Resolve None else Resolve (Some wav))"
  have run: "stopRecording h = pre @ [fin]"
    unfolding stopRecording_def Let_def combine_concat encodeWAV_content
    by (simp add: pre_def fin_def wav_def cancelled_def disconnected_def stopped_def closed_def
        rate_def)
  have quiet: "\<forall>e\<in>set pre. \<not> settles e"
    by (auto simp: pre_def cancelled_def disconnected_def stopped_def closed_def settles_def
        split: option.splits if_splits)
  have none: "samplesRef h = [] \<longrightarrow> fin = Resolve None"
    by (simp add: fin_def)
  have some: "concat (samplesRef h) \<noteq> [] \<longrightarrow>
      (\<exists>wavBlob. fin = Resolve (Some wavBlob)
         \<and> length (content wavBlob) = 44 + 2 * length (concat (samplesRef h)))"
    by (simp add: fin_def wav_def length_wav_header length_concat_sample_bytes)
  have frame: "\<forall>frame. animationFrameRef h = Some frame \<and> frame \<noteq> 0 \<longrightarrow>
      count_list pre (CancelAnimationFrame frame) = 1"
    by (auto simp: pre_def cancelled_def disconnected_def stopped_def closed_def
        count_list_not_TrackStop split: option.splits)
  have node: "\<forall>node. processorRef h = Some node \<longrightarrow> count_list pre (Disconnect node) = 1"
    by (auto simp: pre_def cancelled_def disconnected_def stopped_def closed_def
        count_list_not_TrackStop split: option.splits)
  have tracks: "\<forall>tracks. streamRef h = Some tracks \<and> distinct tracks \<longrightarrow>
      (\<forall>t\<in>set tracks. count_list pre (TrackStop t) = 1)"
    by (auto simp: pre_def cancelled_def disconnected_def stopped_def closed_def
        count_list_TrackStop count_list_distinct split: option.splits)
  have ctx: "\<forall>c. audioContextRef h = Some c \<longrightarrow> count_list pre (ContextClose (context_id c)) = 1"
    by (auto simp: pre_def cancelled_def disconnected_def stopped_def closed_def
        count_list_not_TrackStop split: option.splits)
  show ?thesis
    by (intro exI [of _ pre] exI [of _ fin] conjI) (fact run quiet none some frame node tracks ctx)+
qed

theorem stopRecording_releases_witness:
  "stopRecording \<lparr>streamRef = Some [1, 2],
      audioContextRef = Some \<lparr>context_id = 5, context_sampleRate = Fin 44100\<rparr>,
      processorRef = Some 3, animationFrameRef = Some 7, samplesRef = []\<rparr>
   = [CancelAnimationFrame 7, Disconnect 3, TrackStop 1, TrackStop 2, SetIsRecording False,
      SetAudioLevel (Fin 0), ContextClose 5, Resolve None]
   \<and> count_list [CancelAnimationFrame 7, Disconnect 3, TrackStop 1, TrackStop 2,
        SetIsRecording False, SetAudioLevel (Fin 0), ContextClose 5] (TrackStop 2) = 1"
proof -
  let ?h = "\<lparr>streamRef = Some [1, 2],
      audioContextRef = Some \<lparr>context_id = 5, context_sampleRate = Fin 44100\<rparr>,
      processorRef = Some 3, animationFrameRef = Some 7, samplesRef = []\<rparr>"
  obtain pre fin where run: "stopRecording ?h = pre @ [fin]"
    and none: "samplesRef ?h = [] \<longrightarrow> fin = Resolve None"
    and tracks: "\<forall>tracks. streamRef ?h = Some tracks \<and> distinct tracks \<longrightarrow>
          (\<forall>t\<in>set tracks. count_list pre (TrackStop t) = 1)"
    using stopRecording_releases [of ?h] by blast
  have fin: "fin = Resolve None" using none by simp
  have "stopRecording ?h = [CancelAnimationFrame 7, Disconnect 3, TrackStop 1, TrackStop 2,
      SetIsRecording False, SetAudioLevel (Fin 0), ContextClose 5] @ [Resolve None]"
    by (simp add: stopRecording_def)
  then have pre: "pre = [CancelAnimationFrame 7, Disconnect 3, TrackStop 1, TrackStop 2,
      SetIsRecording False, SetAudioLevel (Fin 0), ContextClose 5]"
    using run fin by simp
  have "count_list pre (TrackStop 2) = 1"
    using tracks [rule_format, of "[1, 2]" 2] by simp
  then show ?thesis using run fin pre by simp
qed

section \<open>Properties of the recognition endpoint\<close>

lemma handler_accepted:
  assumes "accepted p req audioFile accessKey accessSecret host"
  shows "handler p req = identify p audioFile accessKey accessSecret host"
  using assms
  by (auto simp: accepted_def handler_def truthy_def split: sum.splits)

lemma handler_too_short:
  assumes "req_method req \<noteq> ''OPTIONS''" and "req_formData req = Inr formData"
    and "map_of formData ''audio'' = Some (FileEntry audioFile)"
    and "length (file_bytes audioFile) < 50000"
  shows "handler p req =
    ([], json_response 400
           (ErrorBody ''Recording too short. Please record at least 5-10 seconds of clear audio.''))"
  using assms by (simp add: handler_def)

lemma stringToSign_eq:
  "stringToSign accessKey timestamp =
     ''POST'' @ [CHR 0x0A] @ ''/v1/identify'' @ [CHR 0x0A] @ accessKey @ [CHR 0x0A]
       @ ''audio'' @ [CHR 0x0A] @ ''1'' @ [CHR 0x0A] @ timestamp"
  by (simp add: stringToSign_def)

lemma digit_value: "d < 10 \<Longrightarrow> of_char (digit d) - 48 = d"
proof -
  assume "d < 10"
  then have "d \<in> {0, 1, 2, 3, 4, 5, 6, 7, 8, 9}" by auto
  then show ?thesis by (auto simp: digit_def)
qed

lemma decimal_value_snoc: "decimal_value (s @ [c]) = 10 * decimal_value s + (of_char c - 48)"
  by (simp add: decimal_value_def)

lemma decimal_value_toString: "decimal_value (toString n) = n"
proof (induction n rule: toString.induct)
  case (1 n)
  show ?case
  proof (cases "n < 10")
    case True
    then show ?thesis
      using decimal_value_snoc [of "[]" "digit n"]
      by (simp add: toString.simps [of n] digit_value decimal_value_def)
  next
    case False
    then have "decimal_value (toString (n div 10)) = n div 10" by (rule "1.IH")
    then show ?thesis
      using False by (simp add: toString.simps [of n] decimal_value_snoc digit_value)
  qed
qed

subsection \<open>Validation order\<close>

text \<open>
  Claim C5. A request (not a preflight) whose form holds an audio file of fewer than 50000
  bytes gets the 400 rejection "Recording too short", whatever the platform; the handler
  causes no event on the way: nothing is signed and no request is sent to the service.
\<close>

theorem too_short_rejected_without_call:
  assumes "req_method req \<noteq> ''OPTIONS''" and "req_formData req = Inr formData"
    and "map_of formData ''audio'' = Some (FileEntry audioFile)"
    and "length (file_bytes audioFile) < 50000"
  shows "fst (handler p req) = []
    \<and> snd (handler p req) = json_response 400
         (ErrorBody ''Recording too short. Please record at least 5-10 seconds of clear audio.'')
    \<and> status (snd (handler p req)) = 400"
  using handler_too_short [OF assms, of p] by (simp add: json_response_def)

theorem too_short_rejected_without_call_witness:
  "handler (sample_platform (\<lambda>c. Inl (Error ''offline''))) (sample_request 49999)
     = ([], json_response 400
          (ErrorBody ''Recording too short. Please record at least 5-10 seconds of clear audio.''))"
  using too_short_rejected_without_call
    [of "sample_request 49999" "[(''audio'', FileEntry (sample_file 49999))]" "sample_file 49999"
        "sample_platform (\<lambda>c. Inl (Error ''offline''))"]
  by (simp add: prod_eq_iff sample_request_def sample_file_def)

text \<open>
  Claim C9. The size check comes before the credentials check. A request whose audio
  file is present and below 50000 bytes gets the 400 "Recording too short" also when the
  access key, the access secret or the host is missing or empty. The 500 response
  "ACRCloud credentials not configured" is returned only for a request whose form holds
  an audio file of at least 50000 bytes (and then one of the three settings is missing).
\<close>

theorem size_checked_before_credentials:
  "(req_method req \<noteq> ''OPTIONS'' \<and> req_formData req = Inr formData
      \<and> map_of formData ''audio'' = Some (FileEntry audioFile)
      \<and> length (file_bytes audioFile) < 50000
      \<and> (\<not> truthy (ACRCLOUD_ACCESS_KEY (env p)) \<or> \<not> truthy (ACRCLOUD_ACCESS_SECRET (env p))
          \<or> \<not> truthy (ACRCLOUD_HOST (env p)))
    \<longrightarrow> handler p req = ([], json_response 400
          (ErrorBody ''Recording too short. Please record at least 5-10 seconds of clear audio.'')))
   \<and> (snd (handler p req) = json_response 500 (ErrorBody ''ACRCloud credentials not configured'')
    \<longrightarrow> (\<exists>fd f. req_formData req = Inr fd \<and> map_of fd ''audio'' = Some (FileEntry f)
            \<and> 50000 \<le> length (file_bytes f)
            \<and> (\<not> truthy (ACRCLOUD_ACCESS_KEY (env p))
                \<or> \<not> truthy (ACRCLOUD_ACCESS_SECRET (env p))
                \<or> \<not> truthy (ACRCLOUD_HOST (env p)))))"
proof (intro conjI impI)
  assume "req_method req \<noteq> ''OPTIONS'' \<and> req_formData req = Inr formData
      \<and> map_of formData ''audio'' = Some (FileEntry audioFile)
      \<and> length (file_bytes audioFile) < 50000
      \<and> (\<not> truthy (ACRCLOUD_ACCESS_KEY (env p)) \<or> \<not> truthy (ACRCLOUD_ACCESS_SECRET (env p))
          \<or> \<not> truthy (ACRCLOUD_HOST (env p)))"
  then have "req_method req \<noteq> ''OPTIONS''" "req_formData req = Inr formData"
    "map_of formData ''audio'' = Some (FileEntry audioFile)"
    "length (file_bytes audioFile) < 50000"
    by simp_all
  then show "handler p req = ([], json_response 400
          (ErrorBody ''Recording too short. Please record at least 5-10 seconds of clear audio.''))"
    by (rule handler_too_short)
next
  assume r: "snd (handler p req)
    = json_response 500 (ErrorBody ''ACRCloud credentials not configured'')"
  have respond_status: "\<And>result. status (respond result) \<noteq> 500"
    by (simp add: respond_def json_response_def Let_def split: option.splits list.splits)
  have caught_body: "\<And>e. body (caught e) \<noteq> ErrorBody ''ACRCloud credentials not configured''"
    by (simp add: caught_def json_response_def split: exn.splits)
  have identify_other: "\<And>f k s h. snd (identify p f k s h)
      \<noteq> json_response 500 (ErrorBody ''ACRCloud credentials not configured'')"
  proof
    fix f k s h
    assume a: "snd (identify p f k s h)
      = json_response 500 (ErrorBody ''ACRCloud credentials not configured'')"
    show False
    proof (cases "fetch_json p (acr_call p f k s h)")
      case (Inl e)
      then have "body (caught e) = ErrorBody ''ACRCloud credentials not configured''"
        using a by (simp add: identify_def Let_def json_response_def)
      then show False using caught_body by simp
    next
      case (Inr result)
      then have "status (respond result) = 500"
        using a by (simp add: identify_def Let_def json_response_def)
      then show False using respond_status by simp
    qed
  qed
  have caught_other: "\<And>e. caught e
      \<noteq> json_response 500 (ErrorBody ''ACRCloud credentials not configured'')"
    using caught_body by (metis response.select_convs(3) json_response_def)
  show "\<exists>fd f. req_formData req = Inr fd \<and> map_of fd ''audio'' = Some (FileEntry f)
            \<and> 50000 \<le> length (file_bytes f)
            \<and> (\<not> truthy (ACRCLOUD_ACCESS_KEY (env p))
                \<or> \<not> truthy (ACRCLOUD_ACCESS_SECRET (env p))
                \<or> \<not> truthy (ACRCLOUD_HOST (env p)))"
  proof (cases "req_method req = ''OPTIONS''")
    case True
    then show ?thesis using r by (simp add: handler_def json_response_def)
  next
    case False
    show ?thesis
    proof (cases "req_formData req")
      case (Inl e)
      then show ?thesis using r False caught_other [of e] by (simp add: handler_def)
    next
      case (Inr fd)
      show ?thesis
      proof (cases "map_of fd ''audio''")
        case None
        then show ?thesis using r False Inr by (simp add: handler_def json_response_def)
      next
        case (Some entry)
        show ?thesis
        proof (cases entry)
          case (StringEntry s)
          then show ?thesis
            using r False Inr Some caught_other [of TypeError]
            by (simp add: handler_def json_response_def split: if_splits)
        next
          case (FileEntry f)
          show ?thesis
          proof (cases "length (file_bytes f) < 50000")
            case True
            then show ?thesis
              using r False Inr Some FileEntry by (simp add: handler_def json_response_def)
          next
            case big: False
            show ?thesis
            proof (cases "\<not> truthy (ACRCLOUD_ACCESS_KEY (env p))
                \<or> \<not> truthy (ACRCLOUD_ACCESS_SECRET (env p))
                \<or> \<not> truthy (ACRCLOUD_HOST (env p))")
              case True
              then show ?thesis using Inr Some FileEntry big by simp
            next
              case configured: False
              then have "handler p req = identify p f (the (ACRCLOUD_ACCESS_KEY (env p)))
                  (the (ACRCLOUD_ACCESS_SECRET (env p))) (the (ACRCLOUD_HOST (env p)))"
                using False Inr Some FileEntry big by (simp add: handler_def)
              then show ?thesis using r identify_other by simp
            qed
          qed
        qed
      qed
    qed
  qed
qed

theorem size_checked_before_credentials_witness:
  "handler (unconfigured_platform (\<lambda>c. Inl (Error ''offline''))) (sample_request 49999)
     = ([], json_response 400
          (ErrorBody ''Recording too short. Please record at least 5-10 seconds of clear audio.''))
   \<and> handler (unconfigured_platform (\<lambda>c. Inl (Error ''offline''))) (sample_request 50000)
     = ([], json_response 500 (ErrorBody ''ACRCloud credentials not configured''))
   \<and> 50000 \<le> length (file_bytes (sample_file 50000))"
proof -
  let ?p = "unconfigured_platform (\<lambda>c. Inl (Error ''offline''))"
  have small: "handler ?p (sample_request 49999)
     = ([], json_response 400
          (ErrorBody ''Recording too short. Please record at least 5-10 seconds of clear audio.''))"
    using size_checked_before_credentials
      [of "sample_request 49999" "[(''audio'', FileEntry (sample_file 49999))]"
          "sample_file 49999" ?p]
    by (simp add: sample_request_def sample_file_def unconfigured_platform_def truthy_def)
  have big: "handler ?p (sample_request 50000)
     = ([], json_response 500 (ErrorBody ''ACRCloud credentials not configured''))"
    by (simp add: handler_def sample_request_def sample_file_def unconfigured_platform_def
        truthy_def)
  then have "snd (handler ?p (sample_request 50000))
     = json_response 500 (ErrorBody ''ACRCloud credentials not configured'')"
    by simp
  from size_checked_before_credentials [THEN conjunct2, rule_format, OF this]
  obtain fd f where "req_formData (sample_request 50000) = Inr fd"
    "map_of fd ''audio'' = Some (FileEntry f)" "50000 \<le> length (file_bytes f)"
    by blast
  then have "50000 \<le> length (file_bytes (sample_file 50000))"
    by (auto simp: sample_request_def)
  then show ?thesis using small big by simp
qed

subsection \<open>Replies of the service\<close>

lemma handler_reply:
  assumes "accepted p req audioFile accessKey accessSecret host"
    and "fetch_json p (acr_call p audioFile accessKey accessSecret host) = Inr result"
  shows "snd (handler p req) = respond result"
  using assms by (simp add: handler_accepted identify_def Let_def)

lemma accepted_sample:
  "accepted (sample_platform service) (sample_request 50000) (sample_file 50000)
     ''key'' ''secret'' ''identify.example.com''"
  by (simp add: accepted_def sample_platform_def sample_request_def sample_file_def)

text \<open>
  Claim C6. When the service replies with a status code other than 0, the response has
  status 404, the JSON headers, and an error body, never a song: for code 2004 the
  message that no music was detected, for code 1001 the message that the song was not
  recognized and to try a different part, and for every other code the status message of
  the service, or "Song not found" when that message is missing or empty.
\<close>

theorem upstream_rejection:
  assumes "accepted p req audioFile accessKey accessSecret host"
    and "fetch_json p (acr_call p audioFile accessKey accessSecret host) = Inr result"
    and "status_code (result_status result) \<noteq> 0"
  shows "status (snd (handler p req)) = 404
    \<and> headers (snd (handler p req))
        = [(''Access-Control-Allow-Origin'', ''*''),
           (''Access-Control-Allow-Headers'',
            ''authorization, x-client-info, apikey, content-type''),
           (''Content-Type'', ''application/json'')]
    \<and> (status_code (result_status result) = 2004 \<longrightarrow>
         body (snd (handler p req)) = ErrorBody
           ''No music detected in the recording. Play a song loudly near your microphone and try again.'')
    \<and> (status_code (result_status result) = 1001 \<longrightarrow>
         body (snd (handler p req)) = ErrorBody
           ''Song not recognized. Try a different part of the song or a more popular track.'')
    \<and> (status_code (result_status result) \<noteq> 2004
         \<and> status_code (result_status result) \<noteq> 1001 \<longrightarrow>
           (\<forall>m. status_msg (result_status result) = Some m \<and> m \<noteq> [] \<longrightarrow>
                body (snd (handler p req)) = ErrorBody m)
         \<and> (status_msg (result_status result) = None
              \<or> status_msg (result_status result) = Some [] \<longrightarrow>
                body (snd (handler p req)) = ErrorBody ''Song not found''))
    \<and> (\<forall>s. body (snd (handler p req)) \<noteq> SongBody s)"
  using assms(3) unfolding handler_reply [OF assms(1,2)]
  by (auto simp: respond_def json_response_def corsHeaders_def or_else_def Let_def)

theorem upstream_rejection_witness:
  "status (snd (handler (sample_platform (\<lambda>c. Inr (rejection 2004 (Some ''No result''))))
         (sample_request 50000))) = 404
   \<and> body (snd (handler (sample_platform (\<lambda>c. Inr (rejection 2004 (Some ''No result''))))
         (sample_request 50000)))
     = ErrorBody
         ''No music detected in the recording. Play a song loudly near your microphone and try again.''
   \<and> body (snd (handler (sample_platform (\<lambda>c. Inr (rejection 1001 (Some ''No result''))))
         (sample_request 50000)))
     = ErrorBody ''Song not recognized. Try a different part of the song or a more popular track.''
   \<and> body (snd (handler (sample_platform (\<lambda>c. Inr (rejection 3003 (Some ''Limit exceeded''))))
         (sample_request 50000)))
     = ErrorBody ''Limit exceeded''
   \<and> body (snd (handler (sample_platform (\<lambda>c. Inr (rejection 3000 None)))
         (sample_request 50000)))
     = ErrorBody ''Song not found''"
  using upstream_rejection [OF accepted_sample, of "\<lambda>c. Inr (rejection 2004 (Some ''No result''))"
      "rejection 2004 (Some ''No result'')"]
    upstream_rejection [OF accepted_sample, of "\<lambda>c. Inr (rejection 1001 (Some ''No result''))"
      "rejection 1001 (Some ''No result'')"]
    upstream_rejection [OF accepted_sample, of "\<lambda>c. Inr (rejection 3003 (Some ''Limit exceeded''))"
      "rejection 3003 (Some ''Limit exceeded'')"]
    upstream_rejection [OF accepted_sample, of "\<lambda>c. Inr (rejection 3000 None)"
      "rejection 3000 None"]
  by (simp add: sample_platform_def rejection_def)

text \<open>
  Claim C7. When the service replies with status code 0 and \<open>metadata.music\<close> is missing
  (with or without \<open>metadata\<close>) or is the empty list, the response is the 404 "Song not
  found" and never a song.
\<close>

theorem no_music_not_found:
  assumes "accepted p req audioFile accessKey accessSecret host"
    and "fetch_json p (acr_call p audioFile accessKey accessSecret host) = Inr result"
    and "status_code (result_status result) = 0"
    and "result_metadata result = None
       \<or> (\<exists>m. result_metadata result = Some m \<and> metadata_music m = None)
       \<or> (\<exists>m. result_metadata result = Some m \<and> metadata_music m = Some [])"
  shows "snd (handler p req) = json_response 404 (ErrorBody ''Song not found'')
    \<and> status (snd (handler p req)) = 404
    \<and> (\<forall>s. body (snd (handler p req)) \<noteq> SongBody s)"
  using assms(3,4) unfolding handler_reply [OF assms(1,2)]
  by (auto simp: respond_def json_response_def)

theorem no_music_not_found_witness:
  "snd (handler (sample_platform (\<lambda>c. Inr (match (Some [])))) (sample_request 50000))
     = json_response 404 (ErrorBody ''Song not found'')
   \<and> snd (handler (sample_platform (\<lambda>c. Inr (match None))) (sample_request 50000))
     = json_response 404 (ErrorBody ''Song not found'')"
  using no_music_not_found [OF accepted_sample, of "\<lambda>c. Inr (match (Some []))" "match (Some [])"]
    no_music_not_found [OF accepted_sample, of "\<lambda>c. Inr (match None)" "match None"]
  by (simp add: sample_platform_def match_def)

subsection \<open>The song result\<close>

text \<open>
  Claim C4. When the service replies with status code 0 and \<open>metadata.music\<close> has a first
  entry, the response is a 200 whose body is a song built from that entry. Its artist is
  the name of the first listed artist when there is one with a non-empty name, and
  "Unknown Artist" when the artist list is missing or empty or its first entry has no
  (or an empty) name. Its external URL is the Spotify track link built from
  \<open>external_metadata.spotify.track.id\<close> when that id is present (and non-empty); otherwise
  the Spotify search link built from \<open>external_ids.isrc\<close> when an ISRC is present (and
  non-empty); otherwise there is none.
\<close>

theorem song_result_precedence:
  assumes "accepted p req audioFile accessKey accessSecret host"
    and "fetch_json p (acr_call p audioFile accessKey accessSecret host) = Inr result"
    and "status_code (result_status result) = 0"
    and "result_metadata result = Some m" and "metadata_music m = Some (music # rest)"
  shows "\<exists>s. snd (handler p req)
        = \<lparr>status = 200, headers = corsHeaders @ [(''Content-Type'', ''application/json'')],
           body = SongBody s\<rparr>
     \<and> (\<forall>a more n. music_artists music = Some (a # more) \<and> artist_name a = Some n \<and> n \<noteq> []
           \<longrightarrow> artist s = n)
     \<and> (music_artists music = None \<or> music_artists music = Some []
         \<or> (\<exists>a more. music_artists music = Some (a # more) \<and> \<not> truthy (artist_name a))
           \<longrightarrow> artist s = ''Unknown Artist'')
     \<and> (let trackId = Option.bind (Option.bind (Option.bind (music_external_metadata music)
                          external_metadata_spotify) spotify_track) track_id;
              isrc = Option.bind (music_external_ids music) external_ids_isrc
          in (\<forall>t. trackId = Some t \<and> t \<noteq> []
                \<longrightarrow> externalUrl s = Some (''https://open.spotify.com/track/'' @ t))
           \<and> (\<forall>i. \<not> truthy trackId \<and> isrc = Some i \<and> i \<noteq> []
                \<longrightarrow> externalUrl s = Some (''https://www.spotify.com/search/'' @ i))
           \<and> (\<not> truthy trackId \<and> \<not> truthy isrc \<longrightarrow> externalUrl s = None))"
proof -
  have reply: "snd (handler p req)
      = \<lparr>status = 200, headers = corsHeaders @ [(''Content-Type'', ''application/json'')],
         body = SongBody (song music)\<rparr>"
    using assms(3,4,5) unfolding handler_reply [OF assms(1,2)]
    by (simp add: respond_def)
  have named: "\<forall>a more n. music_artists music = Some (a # more) \<and> artist_name a = Some n \<and> n \<noteq> []
      \<longrightarrow> artist (song music) = n"
    by (simp add: song_def or_else_def)
  have unknown: "music_artists music = None \<or> music_artists music = Some []
      \<or> (\<exists>a more. music_artists music = Some (a # more) \<and> \<not> truthy (artist_name a))
      \<longrightarrow> artist (song music) = ''Unknown Artist''"
    by (auto simp: song_def or_else_def truthy_def split: option.splits)
  have link: "let trackId = Option.bind (Option.bind (Option.bind (music_external_metadata music)
                          external_metadata_spotify) spotify_track) track_id;
              isrc = Option.bind (music_external_ids music) external_ids_isrc
          in (\<forall>t. trackId = Some t \<and> t \<noteq> []
                \<longrightarrow> externalUrl (song music) = Some (''https://open.spotify.com/track/'' @ t))
           \<and> (\<forall>i. \<not> truthy trackId \<and> isrc = Some i \<and> i \<noteq> []
                \<longrightarrow> externalUrl (song music) = Some (''https://www.spotify.com/search/'' @ i))
           \<and> (\<not> truthy trackId \<and> \<not> truthy isrc \<longrightarrow> externalUrl (song music) = None)"
    by (simp add: song_def Let_def truthy_def)
  show ?thesis
    by (intro exI [of _ "song music"] conjI) (fact reply named unknown link)+
qed

theorem song_result_precedence_witness:
  "snd (handler (sample_platform (\<lambda>c. Inr (match (Some [bohemian_rhapsody]))))
         (sample_request 50000))
     = \<lparr>status = 200, headers = corsHeaders @ [(''Content-Type'', ''application/json'')],
        body = SongBody
          \<lparr>title = Some ''Bohemian Rhapsody'', artist = ''Queen'',
           album = Some ''A Night at the Opera'', albumArt = None, releaseDate = Some ''1975'',
           externalUrl = Some ''https://www.spotify.com/search/GBUM71029604''\<rparr>\<rparr>"
proof -
  let ?p = "sample_platform (\<lambda>c. Inr (match (Some [bohemian_rhapsody])))"
  obtain s where reply: "snd (handler ?p (sample_request 50000))
        = \<lparr>status = 200, headers = corsHeaders @ [(''Content-Type'', ''application/json'')],
           body = SongBody s\<rparr>"
    using song_result_precedence [OF accepted_sample,
        of "\<lambda>c. Inr (match (Some [bohemian_rhapsody]))" "match (Some [bohemian_rhapsody])"
           "\<lparr>metadata_music = Some [bohemian_rhapsody]\<rparr>" bohemian_rhapsody "[]"]
    by (auto simp: sample_platform_def match_def)
  have "snd (handler ?p (sample_request 50000))
      = respond (match (Some [bohemian_rhapsody]))"
    by (rule handler_reply [OF accepted_sample]) (simp add: sample_platform_def)
  then show ?thesis
    using reply
    by (simp add: respond_def match_def song_def bohemian_rhapsody_def or_else_def truthy_def)
qed

subsection \<open>The signed request\<close>

lemma digit_in_digits: "d < 10 \<Longrightarrow> digit d \<in> set ''0123456789''"
proof -
  assume "d < 10"
  then have "d \<in> {0, 1, 2, 3, 4, 5, 6, 7, 8, 9}" by auto
  then show ?thesis by (auto simp: digit_def)
qed

lemma digit_zero: "d < 10 \<Longrightarrow> digit d = CHR ''0'' \<Longrightarrow> d = 0"
proof -
  assume "d < 10" and z: "digit d = CHR ''0''"
  then have "d \<in> {0, 1, 2, 3, 4, 5, 6, 7, 8, 9}" by auto
  then show ?thesis using z by (auto simp: digit_def)
qed

lemma toString_nonempty: "toString n \<noteq> []"
  by (subst toString.simps) simp

lemma toString_digits: "set (toString n) \<subseteq> set ''0123456789''"
proof (induction n rule: toString.induct)
  case (1 n)
  show ?case
  proof (cases "n < 10")
    case True
    then show ?thesis
      using digit_in_digits [of n] by (subst toString.simps) simp
  next
    case False
    then have "set (toString (n div 10)) \<subseteq> set ''0123456789''" by (rule "1.IH")
    moreover have "digit (n mod 10) \<in> set ''0123456789''"
      by (rule digit_in_digits) simp
    ultimately show ?thesis
      using False by (subst toString.simps) simp
  qed
qed

lemma toString_leading: "hd (toString n) = CHR ''0'' \<Longrightarrow> n = 0"
proof (induction n rule: toString.induct)
  case (1 n)
  show ?case
  proof (cases "n < 10")
    case True
    then have "toString n = [digit n]" by (subst toString.simps) simp
    then show ?thesis using "1.prems" True digit_zero [of n] by simp
  next
    case False
    then have "toString n = toString (n div 10) @ [digit (n mod 10)]"
      by (subst toString.simps) simp
    then have "hd (toString (n div 10)) = CHR ''0''"
      using "1.prems" toString_nonempty [of "n div 10"] by simp
    then have "n div 10 = 0" using False by (intro "1.IH")
    then show ?thesis using False by simp
  qed
qed

text \<open>
  Claim C2. For a request that passes validation, the handler signs once and sends one
  request. The signed message is the bytes of the six elements \<open>POST\<close>, \<open>/v1/identify\<close>,
  the access key, \<open>audio\<close>, \<open>1\<close> and the timestamp, in this order, joined by newlines; the
  timestamp is the decimal string (digits only, no leading zero) of the clock in seconds
  (milliseconds divided by 1000, rounded down) and is also the \<open>timestamp\<close> field of the
  form; the key of the HMAC is the bytes of the access secret; the \<open>signature\<close> field of
  the form sent is the base64 encoding of that HMAC-SHA1 digest. The signature depends on
  nothing else: any other accepted request, with another file, another host, another
  service and another clock within the same second, but the same access key, access
  secret and primitives, signs the same bytes and sends the same signature.
\<close>

theorem signature_payload:
  assumes "accepted p req audioFile accessKey accessSecret host"
  shows "let timestamp = toString (now p div 1000);
             payload = ''POST'' @ [CHR 0x0A] @ ''/v1/identify'' @ [CHR 0x0A] @ accessKey
               @ [CHR 0x0A] @ ''audio'' @ [CHR 0x0A] @ ''1'' @ [CHR 0x0A] @ timestamp;
             keyData = (map of_char accessSecret :: bytes);
             messageData = (map of_char payload :: bytes);
             call = acr_call p audioFile accessKey accessSecret host
         in payload = join [CHR 0x0A]
                [''POST'', ''/v1/identify'', accessKey, ''audio'', ''1'', timestamp]
          \<and> timestamp \<noteq> [] \<and> set timestamp \<subseteq> set ''0123456789''
          \<and> (hd timestamp = CHR ''0'' \<longrightarrow> timestamp = ''0'')
          \<and> decimal_value timestamp = now p div 1000
          \<and> fst (handler p req) = [Signed keyData messageData, Fetched call]
          \<and> url call = ''https://'' @ host @ ''/v1/identify'' \<and> http_method call = ''POST''
          \<and> map_of (form call) ''signature''
              = Some (StringEntry (base64Encode p (hmac_sha1 p keyData messageData)))
          \<and> map_of (form call) ''timestamp'' = Some (StringEntry timestamp)
          \<and> map_of (form call) ''access_key'' = Some (StringEntry accessKey)
          \<and> map_of (form call) ''data_type'' = Some (StringEntry ''audio'')
          \<and> map_of (form call) ''signature_version'' = Some (StringEntry ''1'')
          \<and> (\<forall>q req' audioFile' host'.
                 accepted q req' audioFile' accessKey accessSecret host'
                 \<and> hmac_sha1 q = hmac_sha1 p \<and> base64Encode q = base64Encode p
                 \<and> now q div 1000 = now p div 1000
               \<longrightarrow> (\<exists>call'. fst (handler q req') = [Signed keyData messageData, Fetched call']
                      \<and> map_of (form call') ''signature'' = map_of (form call) ''signature''))"
proof -
  define timestamp where "timestamp = toString (now p div 1000)"
  define payload where "payload = ''POST'' @ [CHR 0x0A] @ ''/v1/identify'' @ [CHR 0x0A]
    @ accessKey @ [CHR 0x0A] @ ''audio'' @ [CHR 0x0A] @ ''1'' @ [CHR 0x0A] @ timestamp"
  define call where "call = acr_call p audioFile accessKey accessSecret host"
  have payload: "payload = stringToSign accessKey timestamp"
    by (simp add: payload_def stringToSign_eq)
  have joined: "payload = join [CHR 0x0A]
      [''POST'', ''/v1/identify'', accessKey, ''audio'', ''1'', timestamp]"
    by (simp add: payload stringToSign_def)
  have digits: "timestamp \<noteq> []" "set timestamp \<subseteq> set ''0123456789''"
    "decimal_value timestamp = now p div 1000"
    unfolding timestamp_def
    by (rule toString_nonempty, rule toString_digits, rule decimal_value_toString)
  have leading: "hd timestamp = CHR ''0'' \<longrightarrow> timestamp = ''0''"
  proof
    assume "hd timestamp = CHR ''0''"
    then have "now p div 1000 = 0" unfolding timestamp_def by (rule toString_leading)
    then show "timestamp = ''0''"
      unfolding timestamp_def by (simp add: toString.simps digit_def)
  qed
  have events: "fst (handler p req)
      = [Signed (map of_char accessSecret) (map of_char payload), Fetched call]"
    by (simp add: handler_accepted [OF assms] identify_def Let_def encode_def payload
        timestamp_def call_def)
  have request: "url call = ''https://'' @ host @ ''/v1/identify''" "http_method call = ''POST''"
    by (simp_all add: call_def acr_call_def Let_def)
  have signed: "map_of (form call) ''signature''
      = Some (StringEntry (base64Encode p
          (hmac_sha1 p (map of_char accessSecret) (map of_char payload))))"
    by (simp add: call_def acr_call_def signature_def Let_def encode_def payload timestamp_def)
  have fields: "map_of (form call) ''timestamp'' = Some (StringEntry timestamp)"
    "map_of (form call) ''access_key'' = Some (StringEntry accessKey)"
    "map_of (form call) ''data_type'' = Some (StringEntry ''audio'')"
    "map_of (form call) ''signature_version'' = Some (StringEntry ''1'')"
    by (simp_all add: call_def acr_call_def Let_def timestamp_def)
  have same: "\<forall>q req' audioFile' host'.
      accepted q req' audioFile' accessKey accessSecret host'
      \<and> hmac_sha1 q = hmac_sha1 p \<and> base64Encode q = base64Encode p
      \<and> now q div 1000 = now p div 1000
      \<longrightarrow> (\<exists>call'. fst (handler q req')
              = [Signed (map of_char accessSecret) (map of_char payload), Fetched call']
            \<and> map_of (form call') ''signature'' = map_of (form call) ''signature'')"
  proof (intro allI impI, elim conjE)
    fix q req' audioFile' host'
    assume q: "accepted q req' audioFile' accessKey accessSecret host'"
      "hmac_sha1 q = hmac_sha1 p" "base64Encode q = base64Encode p"
      "now q div 1000 = now p div 1000"
    let ?call = "acr_call q audioFile' accessKey accessSecret host'"
    have "fst (handler q req')
        = [Signed (map of_char accessSecret) (map of_char payload), Fetched ?call]"
      using q(4)
      by (simp add: handler_accepted [OF q(1)] identify_def Let_def encode_def payload
          timestamp_def)
    moreover have "map_of (form ?call) ''signature'' = map_of (form call) ''signature''"
      using q(2,3,4) by (simp add: call_def acr_call_def signature_def Let_def)
    ultimately show "\<exists>call'. fst (handler q req')
          = [Signed (map of_char accessSecret) (map of_char payload), Fetched call']
        \<and> map_of (form call') ''signature'' = map_of (form call) ''signature''"
      by blast
  qed
  show ?thesis
    unfolding Let_def timestamp_def [symmetric] payload_def [symmetric] call_def [symmetric]
    by (intro conjI) (fact joined digits leading events request signed fields same)+
qed

theorem signature_payload_witness:
  "fst (handler (sample_platform (\<lambda>c. Inr (match None))) (sample_request 50000))
     = [Signed (map of_char ''secret'')
          (map of_char (''POST'' @ [CHR 0x0A] @ ''/v1/identify'' @ [CHR 0x0A] @ ''key''
             @ [CHR 0x0A] @ ''audio'' @ [CHR 0x0A] @ ''1'' @ [CHR 0x0A] @ ''1700000000'')),
        Fetched (acr_call (sample_platform (\<lambda>c. Inr (match None))) (sample_file 50000)
          ''key'' ''secret'' ''identify.example.com'')]
   \<and> map_of (form (acr_call (sample_platform (\<lambda>c. Inr (match None))) (sample_file 50000)
          ''key'' ''secret'' ''identify.example.com'')) ''signature''
     = Some (StringEntry (base64Encode (sample_platform (\<lambda>c. Inr (match None)))
         (hmac_sha1 (sample_platform (\<lambda>c. Inr (match None)))
            (map of_char ''secret'')
            (map of_char (''POST'' @ [CHR 0x0A] @ ''/v1/identify'' @ [CHR 0x0A] @ ''key''
               @ [CHR 0x0A] @ ''audio'' @ [CHR 0x0A] @ ''1'' @ [CHR 0x0A] @ ''1700000000'')))))
   \<and> map_of (form (acr_call (sample_platform (\<lambda>c. Inr (match None))) (sample_file 50000)
          ''key'' ''secret'' ''identify.example.com'')) ''timestamp''
     = Some (StringEntry ''1700000000'')"
proof -
  have "toString (now (sample_platform (\<lambda>c. Inr (match None))) div 1000) = ''1700000000''"
    by (simp add: sample_platform_def toString.simps digit_def)
  then show ?thesis
    using signature_payload [OF accepted_sample, of "\<lambda>c. Inr (match None)"]
    by (simp add: Let_def)
qed

end
